theory Spec2Isabelle
  imports Main "HOL-Library.Sublist" "HOL-Library.Multiset" "HOL-Library.AList"
begin

section \<open>The PostgreSQL adapter of sqldef: dumping the current schema as DDL\<close>

text \<open>
  This theory embeds \<^verbatim>\<open>adapter/postgres/postgres.go\<close>. Go strings are byte strings and
  are modelled as \<^typ>\<open>string\<close>; a Go \<^verbatim>\<open>int\<close> is modelled as \<^typ>\<open>int\<close> (no arithmetic is done
  on the one integer of the program, the column length, and \<open>Atoi\<close> checks its range).
  A Go function returning \<^verbatim>\<open>(T, error)\<close> returns a pair whose second component is
  \<^term>\<open>None\<close> for a \<^verbatim>\<open>nil\<close> error.
\<close>

subsection \<open>Functions of the Go standard library used by the adapter\<close>

definition dquote :: string where
  "dquote = [CHR 0x22]"

definition nl :: string where
  "nl = [CHR 0x0A]"

text \<open>\<^verbatim>\<open>strings.HasSuffix\<close> and \<^verbatim>\<open>strings.TrimSuffix\<close>.\<close>

definition HasSuffix :: "string \<Rightarrow> string \<Rightarrow> bool" where
  "HasSuffix s suf = (length suf \<le> length s \<and> drop (length s - length suf) s = suf)"

definition TrimSuffix :: "string \<Rightarrow> string \<Rightarrow> string" where
  "TrimSuffix s suf = (if HasSuffix s suf then take (length s - length suf) s else s)"

text \<open>\<^verbatim>\<open>strings.HasPrefix\<close>.\<close>

definition HasPrefix :: "string \<Rightarrow> string \<Rightarrow> bool" where
  "HasPrefix s pre = (take (length pre) s = pre)"

text \<open>\<^verbatim>\<open>strings.Join\<close>.\<close>

fun Join :: "string list \<Rightarrow> string \<Rightarrow> string" where
  "Join [] sep = []"
| "Join [x] sep = x"
| "Join (x # y # ys) sep = x @ sep @ Join (y # ys) sep"

text \<open>\<^verbatim>\<open>strings.Trim(s, cutset)\<close>: every leading and trailing byte of the cutset is removed
  (the cutsets of the adapter are ASCII).\<close>

definition Trim :: "string \<Rightarrow> string \<Rightarrow> string" where
  "Trim s cutset =
     rev (dropWhile (\<lambda>c. c \<in> set cutset) (rev (dropWhile (\<lambda>c. c \<in> set cutset) s)))"

text \<open>The verb \<^verbatim>\<open>%d\<close> of \<^verbatim>\<open>fmt\<close> on an \<^verbatim>\<open>int\<close>: decimal digits, with a minus sign when negative.\<close>

function digits :: "nat \<Rightarrow> string" where
  "digits n = (if n < 10 then [''0123456789'' ! n]
               else digits (n div 10) @ [''0123456789'' ! (n mod 10)])"
  by pat_completeness auto
termination
  by (relation "measure id") auto

declare digits.simps [simp del]

definition itoa :: "int \<Rightarrow> string" where
  "itoa i = (if i < 0 then ''-'' @ digits (nat (- i)) else digits (nat i))"

text \<open>\<^verbatim>\<open>strconv.Atoi\<close> on a 64-bit platform: an optional sign, then one or more decimal
  digits; a syntax error otherwise, a range error outside the 64-bit signed range.\<close>

datatype error = QueryFailure string | ScanFailure string | ConversionFailure string

definition is_digit :: "char \<Rightarrow> bool" where
  "is_digit c = (c \<in> set ''0123456789'')"

definition digit_val :: "char \<Rightarrow> int" where
  "digit_val c = int (of_char c) - 48"

definition parse_digits :: "string \<Rightarrow> int" where
  "parse_digits s = foldl (\<lambda>n c. n * 10 + digit_val c) 0 s"

definition Atoi :: "string \<Rightarrow> error + int" where
  "Atoi s =
     (let neg = (s \<noteq> [] \<and> hd s = CHR ''-'');
          body = (if s \<noteq> [] \<and> (hd s = CHR ''-'' \<or> hd s = CHR ''+'') then tl s else s)
      in if body = [] \<or> \<not> list_all is_digit body then Inl (ConversionFailure s)
         else let v = (if neg then - parse_digits body else parse_digits body)
              in if v < - (2 ^ 63) \<or> 2 ^ 63 - 1 < v then Inl (ConversionFailure s)
                 else Inr v)"

subsection \<open>Columns and their canonical type\<close>

record columnConstraint =
  cc_definition :: string
  cc_name :: string

record column =
  Name :: string
  dataType :: string
  Length :: int
  Nullable :: bool
  Default :: string
  IsAutoIncrement :: bool
  IdentityGeneration :: string
  Check :: "columnConstraint option"

definition GetDataType :: "column \<Rightarrow> string" where
  "GetDataType c =
     (if dataType c = ''smallint'' then
        (if IsAutoIncrement c then ''smallserial'' else dataType c)
      else if dataType c = ''integer'' then
        (if IsAutoIncrement c then ''serial'' else dataType c)
      else if dataType c = ''bigint'' then
        (if IsAutoIncrement c then ''bigserial'' else dataType c)
      else if dataType c = ''timestamp without time zone'' then ''timestamp''
      else if dataType c = ''time without time zone'' then ''time''
      else dataType c)"

subsection \<open>Assembling the DDL of one table\<close>

text \<open>
  A Go \<^verbatim>\<open>map[string]string\<close> is modelled by the list of its entries, with distinct keys;
  \<open>m[k] = v\<close> is \<^const>\<open>AList.update\<close>. The order in which a \<^verbatim>\<open>range\<close> loop visits the
  entries of a map is chosen by the Go runtime and is not fixed by the language: a
  \<open>range_order\<close> stands for that choice, and it is a legal choice on \<open>m\<close> when it
  permutes the entries of \<open>m\<close>.
\<close>

type_synonym gomap = "(string \<times> string) list"

type_synonym range_order = "gomap \<Rightarrow> gomap"

definition visits :: "range_order \<Rightarrow> gomap \<Rightarrow> bool" where
  "visits r m = (mset (r m) = mset m)"

definition indent :: string where
  "indent = ''    ''"

text \<open>The body of the loop over the columns, after the separator and the indentation.\<close>

definition column_text :: "column \<Rightarrow> string" where
  "column_text col =
     dquote @ Name col @ dquote @ '' '' @ GetDataType col
     @ (if Length col > 0 then ''('' @ itoa (Length col) @ '')'' else [])
     @ (if \<not> Nullable col then '' NOT NULL'' else [])
     @ (if Default col \<noteq> [] \<and> \<not> IsAutoIncrement col then '' DEFAULT '' @ Default col else [])
     @ (if IdentityGeneration col \<noteq> []
        then '' GENERATED '' @ IdentityGeneration col @ '' AS IDENTITY'' else [])
     @ (case Check col of
          None \<Rightarrow> []
        | Some ck \<Rightarrow> '' CONSTRAINT '' @ cc_name ck @ '' '' @ cc_definition ck)"

definition column_entry :: "nat \<times> column \<Rightarrow> string" where
  "column_entry ic =
     (if fst ic > 0 then '','' else []) @ nl @ indent @ column_text (snd ic)"

definition buildDumpTableDDL ::
  "range_order \<Rightarrow> range_order \<Rightarrow> string \<Rightarrow> column list \<Rightarrow> string list \<Rightarrow> string list
     \<Rightarrow> string list \<Rightarrow> string list \<Rightarrow> gomap \<Rightarrow> gomap \<Rightarrow> string" where
  "buildDumpTableDDL rc ru table columns pkeyCols indexDefs foreignDefs policyDefs
      checkConstraints uniqueConstraints =
     TrimSuffix
       (''CREATE TABLE '' @ table @ '' (''
        @ concat (map column_entry (enumerate 0 columns))
        @ (if length pkeyCols > 0
           then '','' @ nl @ indent
                @ ''PRIMARY KEY ('' @ dquote @ Join pkeyCols (dquote @ '', '' @ dquote)
                @ dquote @ '')''
           else [])
        @ concat (map (\<lambda>(constraintName, constraintDef).
                         '','' @ nl @ indent
                         @ ''CONSTRAINT '' @ constraintName @ '' '' @ constraintDef)
                   (rc checkConstraints))
        @ nl @ '');'' @ nl
        @ concat (map (\<lambda>v. v @ '';'' @ nl) indexDefs)
        @ concat (map (\<lambda>v. v @ '';'' @ nl) foreignDefs)
        @ concat (map (\<lambda>v. v @ '';'' @ nl) policyDefs)
        @ concat (map (\<lambda>(constraintName, constraintDef). constraintDef @ '';'' @ nl)
                   (ru uniqueConstraints)))
       nl"

subsection \<open>More of the standard library: splitting, trimming, the four regular expressions\<close>

text \<open>\<^verbatim>\<open>strings.SplitN(table, ".", 2)\<close> has two parts exactly when the name contains a dot,
  and then splits at the first one.\<close>

definition SplitTableName :: "string \<Rightarrow> string \<times> string" where
  "SplitTableName table =
     (if CHR ''.'' \<in> set table
      then (takeWhile (\<lambda>c. c \<noteq> CHR ''.'') table, tl (dropWhile (\<lambda>c. c \<noteq> CHR ''.'') table))
      else (''public'', table))"

text \<open>
  \<^verbatim>\<open>strings.TrimSpace\<close> removes the leading and the trailing white space of a UTF-8 string,
  as \<^verbatim>\<open>unicode.IsSpace\<close> defines it. \<open>space_runes\<close> lists the UTF-8 encodings of these
  code points: the six ASCII ones, U+0085, U+00A0, U+1680, U+2000 to U+200A, U+2028,
  U+2029, U+202F, U+205F and U+3000. A byte that starts no such encoding ends the trimming.
\<close>

definition space_runes :: "string list" where
  "space_runes =
     [[CHR 0x09], [CHR 0x0A], [CHR 0x0B], [CHR 0x0C], [CHR 0x0D], [CHR 0x20],
      [CHR 0xC2, CHR 0x85], [CHR 0xC2, CHR 0xA0], [CHR 0xE1, CHR 0x9A, CHR 0x80],
      [CHR 0xE2, CHR 0x80, CHR 0x80], [CHR 0xE2, CHR 0x80, CHR 0x81],
      [CHR 0xE2, CHR 0x80, CHR 0x82], [CHR 0xE2, CHR 0x80, CHR 0x83],
      [CHR 0xE2, CHR 0x80, CHR 0x84], [CHR 0xE2, CHR 0x80, CHR 0x85],
      [CHR 0xE2, CHR 0x80, CHR 0x86], [CHR 0xE2, CHR 0x80, CHR 0x87],
      [CHR 0xE2, CHR 0x80, CHR 0x88], [CHR 0xE2, CHR 0x80, CHR 0x89],
      [CHR 0xE2, CHR 0x80, CHR 0x8A], [CHR 0xE2, CHR 0x80, CHR 0xA8],
      [CHR 0xE2, CHR 0x80, CHR 0xA9], [CHR 0xE2, CHR 0x80, CHR 0xAF],
      [CHR 0xE2, CHR 0x81, CHR 0x9F], [CHR 0xE3, CHR 0x80, CHR 0x80]]"

definition leading_space :: "string \<Rightarrow> nat" where
  "leading_space s =
     (case List.find (\<lambda>w. HasPrefix s w) space_runes of None \<Rightarrow> 0 | Some w \<Rightarrow> length w)"

definition trailing_space :: "string \<Rightarrow> nat" where
  "trailing_space s =
     (case List.find (\<lambda>w. HasSuffix s w) space_runes of None \<Rightarrow> 0 | Some w \<Rightarrow> length w)"

function TrimLeftSpace :: "string \<Rightarrow> string" where
  "TrimLeftSpace s =
     (if leading_space s = 0 then s else TrimLeftSpace (drop (leading_space s) s))"
  by pat_completeness auto
termination
proof (relation "measure length")
  fix s :: string
  assume "leading_space s \<noteq> 0"
  moreover from this have "s \<noteq> []"
    by (auto simp: leading_space_def space_runes_def HasPrefix_def)
  ultimately show "(drop (leading_space s) s, s) \<in> measure length"
    by simp
qed simp

function TrimRightSpace :: "string \<Rightarrow> string" where
  "TrimRightSpace s =
     (if trailing_space s = 0 then s
      else TrimRightSpace (take (length s - trailing_space s) s))"
  by pat_completeness auto
termination
proof (relation "measure length")
  fix s :: string
  assume "trailing_space s \<noteq> 0"
  moreover from this have "s \<noteq> []"
    by (auto simp: trailing_space_def space_runes_def HasSuffix_def)
  ultimately show "(take (length s - trailing_space s) s, s) \<in> measure length"
    by simp
qed simp

declare TrimLeftSpace.simps [simp del] TrimRightSpace.simps [simp del]

definition TrimSpace :: "string \<Rightarrow> string" where
  "TrimSpace s = TrimRightSpace (TrimLeftSpace s)"

text \<open>\<^verbatim>\<open>strings.ReplaceAll(s, "\n", "")\<close>.\<close>

definition remove_newlines :: "string \<Rightarrow> string" where
  "remove_newlines s = filter (\<lambda>c. c \<noteq> CHR 0x0A) s"

text \<open>
  The regular expressions of the adapter, each with the one operation applied to it.
  Go's \<^verbatim>\<open>$\<close> (without the multi-line flag) matches at the end of the text only and
  \<^verbatim>\<open>^\<close> at its start only, so each of \<^verbatim>\<open>;$\<close>, \<^verbatim>\<open>^{\<close> and \<^verbatim>\<open>}$\<close> has at most one match.
\<close>

definition suffixSemicolon_remove :: "string \<Rightarrow> string" where
  "suffixSemicolon_remove s = (if s \<noteq> [] \<and> last s = CHR '';'' then butlast s else s)"

text \<open>\<^verbatim>\<open>spaces.ReplaceAllString(s, " ")\<close> for \<^verbatim>\<open>[ ]+\<close>: a space followed by a space is dropped.\<close>

fun spaces_collapse :: "string \<Rightarrow> string" where
  "spaces_collapse [] = []"
| "spaces_collapse [c] = [c]"
| "spaces_collapse (a # b # cs) =
     (if a = CHR '' '' \<and> b = CHR '' '' then spaces_collapse (b # cs)
      else a # spaces_collapse (b # cs))"

definition policyRolesPrefixRegex_remove :: "string \<Rightarrow> string" where
  "policyRolesPrefixRegex_remove s = (if s \<noteq> [] \<and> hd s = CHR ''{'' then tl s else s)"

definition policyRolesSuffixRegex_remove :: "string \<Rightarrow> string" where
  "policyRolesSuffixRegex_remove s = (if s \<noteq> [] \<and> last s = CHR ''}'' then butlast s else s)"

definition r9_MatchString :: "string \<Rightarrow> bool" where
  "r9_MatchString version = (version \<noteq> [] \<and> hd version = CHR ''9'')"

subsection \<open>The database session\<close>

text \<open>
  The adapter reads the catalog through \<^verbatim>\<open>database/sql\<close>. For each query of the adapter
  the session holds what \<^verbatim>\<open>db.Query\<close> answers: an error, or the rows; and for each row
  what \<^verbatim>\<open>rows.Scan\<close> into the destinations of that loop answers: an error, or the
  scanned values (\<^term>\<open>None\<close> for SQL NULL where the destination is nullable). The
  session also records the queries issued so far.
\<close>

datatype policy_query = queryPermissive | queryNone

datatype query =
    SelectViews
  | SelectColumns string string
  | SelectPrimaryKey string string
  | SelectIndexes string string
  | SelectForeignKeys string string
  | SelectPolicies policy_query string string
  | SelectCheckConstraints string string
  | SelectUniqueConstraints string string
  | SelectVersion

type_synonym 'r query_result = "error + (error + 'r) list"

type_synonym column_row =
  "string \<times> string option \<times> string \<times> string option \<times> string \<times> string option
     \<times> string option \<times> string option"

type_synonym foreign_row =
  "string \<times> string \<times> string \<times> string \<times> string \<times> string \<times> string \<times> string \<times> string"

type_synonym policy_row =
  "string \<times> string \<times> string \<times> string \<times> string option \<times> string option"

record database =
  pg_views :: "(string \<times> string \<times> string) query_result"
  pg_columns :: "string \<Rightarrow> string \<Rightarrow> column_row query_result"
  pg_primary_key :: "string \<Rightarrow> string \<Rightarrow> (string \<times> string \<times> string \<times> string) query_result"
  pg_indexes :: "string \<Rightarrow> string \<Rightarrow> (string \<times> string) query_result"
  pg_foreign_keys :: "string \<Rightarrow> string \<Rightarrow> foreign_row query_result"
  pg_policies :: "string \<Rightarrow> string \<Rightarrow> policy_row query_result"
  pg_check_constraints :: "string \<Rightarrow> string \<Rightarrow> (string \<times> string) query_result"
  pg_unique_constraints :: "string \<Rightarrow> string \<Rightarrow> (string \<times> string) query_result"
  pg_settings :: "(string \<times> string \<times> string \<times> string) query_result"
  issued :: "query list"

definition issue :: "query \<Rightarrow> database \<Rightarrow> database" where
  "issue q d = d\<lparr>issued := issued d @ [q]\<rparr>"

text \<open>
  The two policy queries differ in their second select item only: \<^verbatim>\<open>permissive\<close> in
  \<open>queryPermissive\<close>, the literal \<^verbatim>\<open>''\<close> in \<open>queryNone\<close>.
\<close>

definition run_policy_query ::
  "policy_query \<Rightarrow> database \<Rightarrow> string \<Rightarrow> string \<Rightarrow> policy_row query_result" where
  "run_policy_query q d schema table =
     (case q of
        queryPermissive \<Rightarrow> pg_policies d schema table
      | queryNone \<Rightarrow>
          map_sum id
            (map (map_sum id (\<lambda>(policyName, permissive, rest). (policyName, [], rest))))
            (pg_policies d schema table))"

text \<open>
  The loop \<^verbatim>\<open>for rows.Next() { if err := rows.Scan(...); err != nil { return nil, err } ... }\<close>:
  the first failing scan, or the first failing loop body, ends the function with the error.
\<close>

fun for_rows :: "(error + 'r) list \<Rightarrow> ('a \<Rightarrow> 'r \<Rightarrow> error + 'a) \<Rightarrow> 'a \<Rightarrow> error + 'a" where
  "for_rows [] body acc = Inr acc"
| "for_rows (Inl e # rows) body acc = Inl e"
| "for_rows (Inr r # rows) body acc =
     (case body acc r of Inl e \<Rightarrow> Inl e | Inr acc' \<Rightarrow> for_rows rows body acc')"

text \<open>A query followed by its loop; \<open>nil\<close> is the value returned beside an error.\<close>

definition collect ::
  "'r query_result \<Rightarrow> ('a \<Rightarrow> 'r \<Rightarrow> error + 'a) \<Rightarrow> 'a \<Rightarrow> 'a \<Rightarrow> 'a \<times> error option" where
  "collect res body init nil =
     (case res of
        Inl e \<Rightarrow> (nil, Some e)
      | Inr rows \<Rightarrow>
          (case for_rows rows body init of
             Inl e \<Rightarrow> (nil, Some e)
           | Inr acc \<Rightarrow> (acc, None)))"

subsection \<open>The accessors\<close>

definition view_ddl :: "string \<times> string \<times> string \<Rightarrow> string" where
  "view_ddl row =
     (case row of (schema, name, definition0) \<Rightarrow>
        let definition1 = TrimSpace definition0;
            definition2 = remove_newlines definition1;
            definition3 = suffixSemicolon_remove definition2;
            definition4 = spaces_collapse definition3
        in ''CREATE VIEW '' @ (schema @ ''.'' @ name) @ '' AS '' @ definition4 @ '';'')"

definition Views :: "database \<Rightarrow> (string list \<times> error option) \<times> database" where
  "Views d =
     (collect (pg_views d) (\<lambda>ddls row. Inr (ddls @ [view_ddl row])) [] [],
      issue SelectViews d)"

definition Triggers :: "database \<Rightarrow> (string list \<times> error option) \<times> database" where
  "Triggers d = (([], None), d)"

definition column_of_row :: "column_row \<Rightarrow> error + column" where
  "column_of_row row =
     (case row of
        (colName, colDefault, isNullable, maxLenStr, dataType0, idGen, checkName,
         checkDefinition) \<Rightarrow>
          (case (case maxLenStr of None \<Rightarrow> Inr 0 | Some s \<Rightarrow> Atoi s) of
             Inl e \<Rightarrow> Inl e
           | Inr maxLen \<Rightarrow>
               Inr \<lparr>Name = Trim colName (dquote @ '' ''),
                    dataType = dataType0,
                    Length = maxLen,
                    Nullable = (isNullable = ''YES''),
                    Default = (case colDefault of None \<Rightarrow> [] | Some dflt \<Rightarrow> dflt),
                    IsAutoIncrement =
                      (case colDefault of None \<Rightarrow> False
                       | Some dflt \<Rightarrow> HasPrefix dflt ''nextval(''),
                    IdentityGeneration = (case idGen of None \<Rightarrow> [] | Some g \<Rightarrow> g),
                    Check =
                      (case checkName of
                         None \<Rightarrow> None
                       | Some n \<Rightarrow>
                           (case checkDefinition of
                              None \<Rightarrow> None
                            | Some df \<Rightarrow> Some \<lparr>cc_definition = df, cc_name = n\<rparr>))\<rparr>))"

definition getColumns :: "database \<Rightarrow> string \<Rightarrow> (column list \<times> error option) \<times> database" where
  "getColumns d table0 =
     (case SplitTableName table0 of (schema, table) \<Rightarrow>
        (collect (pg_columns d schema table)
           (\<lambda>cols row. case column_of_row row of Inl e \<Rightarrow> Inl e | Inr col \<Rightarrow> Inr (cols @ [col]))
           [] [],
         issue (SelectColumns schema table) d))"

definition getIndexDefs :: "database \<Rightarrow> string \<Rightarrow> (string list \<times> error option) \<times> database" where
  "getIndexDefs d table0 =
     (case SplitTableName table0 of (schema, table) \<Rightarrow>
        (collect (pg_indexes d schema table)
           (\<lambda>indexes (indexName, indexdef). Inr (indexes @ [indexdef])) [] [],
         issue (SelectIndexes schema table) d))"

definition getTableCheckConstraints ::
  "database \<Rightarrow> string \<Rightarrow> (gomap \<times> error option) \<times> database" where
  "getTableCheckConstraints d tableName =
     (case SplitTableName tableName of (schema, table) \<Rightarrow>
        (collect (pg_check_constraints d schema table)
           (\<lambda>result (constraintName, constraintDef).
              Inr (AList.update constraintName constraintDef result)) [] [],
         issue (SelectCheckConstraints schema table) d))"

definition getUniqueConstraints ::
  "database \<Rightarrow> string \<Rightarrow> (gomap \<times> error option) \<times> database" where
  "getUniqueConstraints d tableName =
     (case SplitTableName tableName of (schema, table) \<Rightarrow>
        (collect (pg_unique_constraints d schema table)
           (\<lambda>result (constraintName, constraintDef).
              Inr (AList.update constraintName
                     (''ALTER TABLE '' @ tableName @ '' ADD CONSTRAINT '' @ constraintName
                      @ '' '' @ constraintDef) result)) [] [],
         issue (SelectUniqueConstraints schema table) d))"

definition getPrimaryKeyColumns ::
  "database \<Rightarrow> string \<Rightarrow> (string list \<times> error option) \<times> database" where
  "getPrimaryKeyColumns d table0 =
     (case SplitTableName table0 of (schema, table) \<Rightarrow>
        (collect (pg_primary_key d schema table)
           (\<lambda>columnNames (tableSchema, constraintName, tableName, columnName).
              Inr (columnNames @ [columnName])) [] [],
         issue (SelectPrimaryKey schema table) d))"

definition foreign_def :: "foreign_row \<Rightarrow> string" where
  "foreign_def row =
     (case row of
        (tableSchema, constraintName, tableName, columnName, foreignTableSchema,
         foreignTableName, foreignColumnName, foreignUpdateRule, foreignDeleteRule) \<Rightarrow>
          ''ALTER TABLE ONLY '' @ tableSchema @ ''.'' @ tableName @ '' ADD CONSTRAINT ''
          @ constraintName @ '' FOREIGN KEY ('' @ columnName @ '') REFERENCES ''
          @ foreignTableSchema @ ''.'' @ foreignTableName @ ''('' @ foreignColumnName
          @ '') ON UPDATE '' @ foreignUpdateRule @ '' ON DELETE '' @ foreignDeleteRule)"

definition getForeignDefs :: "database \<Rightarrow> string \<Rightarrow> (string list \<times> error option) \<times> database" where
  "getForeignDefs d table0 =
     (case SplitTableName table0 of (schema, table) \<Rightarrow>
        (collect (pg_foreign_keys d schema table)
           (\<lambda>defs row. Inr (defs @ [foreign_def row])) [] [],
         issue (SelectForeignKeys schema table) d))"

definition Version :: "database \<Rightarrow> (string \<times> error option) \<times> database" where
  "Version d =
     (collect (pg_settings d)
        (\<lambda>version (name, setting, min_val, max_val). Inr setting) [] [],
      issue SelectVersion d)"

text \<open>The body of the loop of \<open>getPolicyDefs\<close>; \<open>table\<close> is the name after the split.\<close>

definition policy_def :: "string \<Rightarrow> policy_row \<Rightarrow> string" where
  "policy_def table row =
     (case row of (policyName, permissive, roles0, cmd, using, withCheck) \<Rightarrow>
        let roles1 = policyRolesPrefixRegex_remove roles0;
            roles2 = policyRolesSuffixRegex_remove roles1;
            def0 = ''CREATE POLICY '' @ policyName @ '' ON '' @ table @ '' AS '' @ permissive
                   @ '' FOR '' @ cmd @ '' TO '' @ roles2;
            def1 = (case using of None \<Rightarrow> def0 | Some u \<Rightarrow> def0 @ '' USING '' @ u);
            def2 = (case withCheck of None \<Rightarrow> def1 | Some w \<Rightarrow> def1 @ '' WITH CHECK '' @ w)
        in def2 @ '';'')"

definition getPolicyDefs :: "database \<Rightarrow> string \<Rightarrow> (string list \<times> error option) \<times> database" where
  "getPolicyDefs d table0 =
     (case Version d of
        ((version, Some err), d1) \<Rightarrow> (([], Some err), d1)
      | ((version, None), d1) \<Rightarrow>
          (let query = (if r9_MatchString version then queryNone else queryPermissive)
           in case SplitTableName table0 of (schema, table) \<Rightarrow>
                (collect (run_policy_query query d1 schema table)
                   (\<lambda>defs row. Inr (defs @ [policy_def table row])) [] [],
                 issue (SelectPolicies query schema table) d1)))"

definition DumpTableDDL ::
  "range_order \<Rightarrow> range_order \<Rightarrow> database \<Rightarrow> string \<Rightarrow> (string \<times> error option) \<times> database" where
  "DumpTableDDL rc ru d table =
     (case getColumns d table of
        ((cols, Some err), d1) \<Rightarrow> (([], Some err), d1)
      | ((cols, None), d1) \<Rightarrow>
     (case getPrimaryKeyColumns d1 table of
        ((pkeyCols, Some err), d2) \<Rightarrow> (([], Some err), d2)
      | ((pkeyCols, None), d2) \<Rightarrow>
     (case getIndexDefs d2 table of
        ((indexDefs, Some err), d3) \<Rightarrow> (([], Some err), d3)
      | ((indexDefs, None), d3) \<Rightarrow>
     (case getForeignDefs d3 table of
        ((foreignDefs, Some err), d4) \<Rightarrow> (([], Some err), d4)
      | ((foreignDefs, None), d4) \<Rightarrow>
     (case getPolicyDefs d4 table of
        ((policyDefs, Some err), d5) \<Rightarrow> (([], Some err), d5)
      | ((policyDefs, None), d5) \<Rightarrow>
     (case getTableCheckConstraints d5 table of
        ((checkConstraints, Some err), d6) \<Rightarrow> (([], Some err), d6)
      | ((checkConstraints, None), d6) \<Rightarrow>
     (case getUniqueConstraints d6 table of
        ((uniqueConstraints, Some err), d7) \<Rightarrow> (([], Some err), d7)
      | ((uniqueConstraints, None), d7) \<Rightarrow>
          ((buildDumpTableDDL rc ru table cols pkeyCols indexDefs foreignDefs policyDefs
              checkConstraints uniqueConstraints, None), d7))))))))"

subsection \<open>A sample session\<close>

text \<open>
  A catalog with one table \<open>public.users\<close> (a serial key, a bounded text column, a
  unique constraint, one row-security policy) and one view; the server version is a
  parameter.
\<close>

definition sample_session :: "string \<Rightarrow> database" where
  "sample_session version =
     \<lparr>pg_views = Inr [Inr (''public'', ''active_users'',
                    '' SELECT users.id,'' @ nl @ ''    users.email'' @ nl
                    @ ''   FROM users'' @ nl @ ''  WHERE users.active;'')],
      pg_columns = (\<lambda>schema table.
         Inr [Inr (''id'', Some ''nextval('users_id_seq'::regclass)'', ''NO'', None,
                   ''integer'', None, None, None),
              Inr (''email'', None, ''NO'', Some ''255'', ''character varying'', None,
                   None, None)]),
      pg_primary_key = (\<lambda>schema table.
         Inr [Inr (''public'', ''users_pkey'', ''users'', ''id'')]),
      pg_indexes = (\<lambda>schema table. Inr []),
      pg_foreign_keys = (\<lambda>schema table. Inr []),
      pg_policies = (\<lambda>schema table.
         Inr [Inr (''p_users'', ''PERMISSIVE'', ''{public}'', ''ALL'', Some ''(true)'',
                   None)]),
      pg_check_constraints = (\<lambda>schema table. Inr []),
      pg_unique_constraints = (\<lambda>schema table.
         Inr [Inr (''users_email_key'', ''UNIQUE (email)'')]),
      pg_settings = Inr [Inr (''server_version_num'', version, version, version)],
      issued = []\<rparr>"

text \<open>Three plain integer columns, for tables with constraints over several columns.\<close>

definition sample_columns :: "column list" where
  "sample_columns =
     map (\<lambda>n. \<lparr>Name = n, dataType = ''integer'', Length = 0, Nullable = False,
                Default = [], IsAutoIncrement = False, IdentityGeneration = [],
                Check = None\<rparr>)
       [''a'', ''b'', ''c'']"

section \<open>Properties\<close>

subsection \<open>Joining and trimming\<close>

lemma Join_Cons: "Join (x # xs) sep = x @ concat (map (\<lambda>y. sep @ y) xs)"
  by (induction xs arbitrary: x) auto

lemma Join_snoc_nl: "ys \<noteq> [] \<Longrightarrow> concat (map (\<lambda>s. s @ sep) ys) = Join ys sep @ sep"
  by (induction ys sep rule: Join.induct) auto

lemma TrimSuffix_append: "TrimSuffix (s @ suf) suf = s"
  by (simp add: TrimSuffix_def HasSuffix_def)

lemma column_entries_Suc:
  "concat (map column_entry (enumerate (Suc n) cols))
     = concat (map (\<lambda>c. '','' @ (nl @ indent @ column_text c)) cols)"
  by (induction cols arbitrary: n) (auto simp: column_entry_def)

lemma column_entries_Join:
  "concat (map column_entry (enumerate 0 cols))
     = Join (map (\<lambda>c. nl @ indent @ column_text c) cols) '',''"
proof (cases cols)
  case Nil
  then show ?thesis by simp
next
  case (Cons c cs)
  then show ?thesis
    by (simp add: Join_Cons column_entries_Suc column_entry_def o_def)
qed

lemma Join_quoted:
  "pk \<noteq> [] \<Longrightarrow> q @ Join pk (q @ sep @ q) @ q = Join (map (\<lambda>c. q @ c @ q) pk) sep"
  by (induction pk sep rule: Join.induct) auto

lemma last_Join:
  "ys \<noteq> [] \<Longrightarrow> last ys \<noteq> [] \<Longrightarrow> Join ys sep \<noteq> [] \<and> last (Join ys sep) = last (last ys)"
  by (induction ys sep rule: Join.induct) auto

lemma buildDumpTableDDL_sections:
  "buildDumpTableDDL rc ru table columns pkeyCols indexDefs foreignDefs policyDefs cc uc =
     ''CREATE TABLE '' @ table @ '' (''
     @ Join (map (\<lambda>c. nl @ indent @ column_text c) columns) '',''
     @ (if pkeyCols = [] then []
        else '','' @ nl @ indent @ ''PRIMARY KEY (''
             @ Join (map (\<lambda>c. dquote @ c @ dquote) pkeyCols) '', '' @ '')'')
     @ concat (map (\<lambda>(n, d). '','' @ nl @ indent @ ''CONSTRAINT '' @ n @ '' '' @ d) (rc cc))
     @ nl
     @ Join ('');'' # map (\<lambda>v. v @ '';'')
                      (indexDefs @ foreignDefs @ policyDefs @ map snd (ru uc))) nl"
proof -
  define stmts where
    "stmts = '');'' # map (\<lambda>v. v @ '';'')
                      (indexDefs @ foreignDefs @ policyDefs @ map snd (ru uc))"
  define hd_part where
    "hd_part = ''CREATE TABLE '' @ table @ '' (''
       @ Join (map (\<lambda>c. nl @ indent @ column_text c) columns) '',''"
  define pk1 where
    "pk1 = (if length pkeyCols > 0
           then '','' @ nl @ indent
                @ ''PRIMARY KEY ('' @ dquote @ Join pkeyCols (dquote @ '', '' @ dquote)
                @ dquote @ '')''
           else [])"
  define pk2 where
    "pk2 = (if pkeyCols = [] then []
        else '','' @ nl @ indent @ ''PRIMARY KEY (''
             @ Join (map (\<lambda>c. dquote @ c @ dquote) pkeyCols) '', '' @ '')'')"
  define cks where
    "cks = concat (map (\<lambda>(n, d). '','' @ nl @ indent @ ''CONSTRAINT '' @ n @ '' '' @ d) (rc cc))"
  have tail: "'');'' @ nl
        @ concat (map (\<lambda>v. v @ '';'' @ nl) indexDefs)
        @ concat (map (\<lambda>v. v @ '';'' @ nl) foreignDefs)
        @ concat (map (\<lambda>v. v @ '';'' @ nl) policyDefs)
        @ concat (map (\<lambda>(constraintName, constraintDef). constraintDef @ '';'' @ nl) (ru uc))
      = concat (map (\<lambda>s. s @ nl) stmts)"
    by (simp add: stmts_def o_def case_prod_unfold)
  have "concat (map (\<lambda>s. s @ nl) stmts) = Join stmts nl @ nl"
    by (rule Join_snoc_nl) (simp add: stmts_def)
  with tail have tail': "'');'' @ nl
        @ concat (map (\<lambda>v. v @ '';'' @ nl) indexDefs)
        @ concat (map (\<lambda>v. v @ '';'' @ nl) foreignDefs)
        @ concat (map (\<lambda>v. v @ '';'' @ nl) policyDefs)
        @ concat (map (\<lambda>(constraintName, constraintDef). constraintDef @ '';'' @ nl) (ru uc))
      = Join stmts nl @ nl" by simp
  have pk: "pk1 = pk2"
  proof (cases "pkeyCols = []")
    case True
    then show ?thesis by (simp add: pk1_def pk2_def)
  next
    case False
    have "dquote @ Join pkeyCols (dquote @ '', '' @ dquote) @ dquote
        = Join (map (\<lambda>c. dquote @ c @ dquote) pkeyCols) '', ''"
      by (rule Join_quoted [OF False])
    then have "dquote @ Join pkeyCols (dquote @ '', '' @ dquote) @ dquote @ '')''
        = Join (map (\<lambda>c. dquote @ c @ dquote) pkeyCols) '', '' @ '')''"
      by (metis append.assoc)
    with False show ?thesis by (simp add: pk1_def pk2_def)
  qed
  have "buildDumpTableDDL rc ru table columns pkeyCols indexDefs foreignDefs policyDefs cc uc
      = TrimSuffix (hd_part @ pk1 @ cks @ nl @ (Join stmts nl @ nl)) nl"
    unfolding buildDumpTableDDL_def column_entries_Join tail'
    by (simp only: hd_part_def pk1_def cks_def append.assoc)
  also have "\<dots> = TrimSuffix ((hd_part @ pk2 @ cks @ nl @ Join stmts nl) @ nl) nl"
    by (simp only: pk append.assoc)
  also have "\<dots> = hd_part @ pk2 @ cks @ nl @ Join stmts nl"
    by (rule TrimSuffix_append)
  finally show ?thesis
    by (simp only: hd_part_def pk2_def cks_def stmts_def append.assoc)
qed


lemma visits_short: "visits r m \<Longrightarrow> length m \<le> 1 \<Longrightarrow> r m = m"
proof -
  assume v: "visits r m" and l: "length m \<le> 1"
  show "r m = m"
  proof (cases m)
    case Nil
    with v show ?thesis by (simp add: visits_def)
  next
    case (Cons x xs)
    with l have "m = [x]" by simp
    with v have "mset (r m) = {#x#}" by (simp add: visits_def)
    then have "r m = [x]" by (simp add: mset_single_iff_right)
    with \<open>m = [x]\<close> show ?thesis by simp
  qed
qed

subsection \<open>The canonical type\<close>

text \<open>
  C4. The canonical type of a column: \<open>smallint\<close>, \<open>integer\<close> and \<open>bigint\<close> with the
  auto-increment flag become \<open>smallserial\<close>, \<open>serial\<close> and \<open>bigserial\<close>;
  \<open>timestamp without time zone\<close> becomes \<open>timestamp\<close> and \<open>time without time zone\<close>
  becomes \<open>time\<close> whatever the flag; every other raw type (an integer type without the
  flag included) is returned unchanged.
\<close>

theorem GetDataType_canonical:
  "(dataType c = ''smallint'' \<and> IsAutoIncrement c \<longrightarrow> GetDataType c = ''smallserial'')
   \<and> (dataType c = ''integer'' \<and> IsAutoIncrement c \<longrightarrow> GetDataType c = ''serial'')
   \<and> (dataType c = ''bigint'' \<and> IsAutoIncrement c \<longrightarrow> GetDataType c = ''bigserial'')
   \<and> (dataType c = ''timestamp without time zone'' \<longrightarrow> GetDataType c = ''timestamp'')
   \<and> (dataType c = ''time without time zone'' \<longrightarrow> GetDataType c = ''time'')
   \<and> (\<not> (IsAutoIncrement c \<and> dataType c \<in> {''smallint'', ''integer'', ''bigint''})
        \<and> dataType c \<notin> {''timestamp without time zone'', ''time without time zone''}
      \<longrightarrow> GetDataType c = dataType c)"
  by (simp add: GetDataType_def)

theorem GetDataType_canonical_witness:
  "GetDataType \<lparr>Name = ''id'', dataType = ''smallint'', Length = 0, Nullable = False,
       Default = ''nextval('s')'', IsAutoIncrement = True, IdentityGeneration = [],
       Check = None\<rparr> = ''smallserial''
   \<and> GetDataType \<lparr>Name = ''id'', dataType = ''integer'', Length = 0, Nullable = False,
       Default = ''nextval('s')'', IsAutoIncrement = True, IdentityGeneration = [],
       Check = None\<rparr> = ''serial''
   \<and> GetDataType \<lparr>Name = ''id'', dataType = ''bigint'', Length = 0, Nullable = False,
       Default = ''nextval('s')'', IsAutoIncrement = True, IdentityGeneration = [],
       Check = None\<rparr> = ''bigserial''
   \<and> GetDataType \<lparr>Name = ''at'', dataType = ''timestamp without time zone'', Length = 0,
       Nullable = True, Default = [], IsAutoIncrement = False, IdentityGeneration = [],
       Check = None\<rparr> = ''timestamp''
   \<and> GetDataType \<lparr>Name = ''at'', dataType = ''time without time zone'', Length = 0,
       Nullable = True, Default = [], IsAutoIncrement = True, IdentityGeneration = [],
       Check = None\<rparr> = ''time''
   \<and> GetDataType \<lparr>Name = ''n'', dataType = ''integer'', Length = 0,
       Nullable = True, Default = ''0'', IsAutoIncrement = False, IdentityGeneration = [],
       Check = None\<rparr> = ''integer''
   \<and> GetDataType \<lparr>Name = ''n'', dataType = ''text'', Length = 0,
       Nullable = True, Default = [], IsAutoIncrement = True, IdentityGeneration = [],
       Check = None\<rparr> = ''text''"
  using
    GetDataType_canonical [of "\<lparr>Name = ''id'', dataType = ''smallint'', Length = 0,
       Nullable = False, Default = ''nextval('s')'', IsAutoIncrement = True,
       IdentityGeneration = [], Check = None\<rparr>"]
    GetDataType_canonical [of "\<lparr>Name = ''id'', dataType = ''integer'', Length = 0,
       Nullable = False, Default = ''nextval('s')'', IsAutoIncrement = True,
       IdentityGeneration = [], Check = None\<rparr>"]
    GetDataType_canonical [of "\<lparr>Name = ''id'', dataType = ''bigint'', Length = 0,
       Nullable = False, Default = ''nextval('s')'', IsAutoIncrement = True,
       IdentityGeneration = [], Check = None\<rparr>"]
    GetDataType_canonical [of "\<lparr>Name = ''at'', dataType = ''timestamp without time zone'',
       Length = 0, Nullable = True, Default = [], IsAutoIncrement = False,
       IdentityGeneration = [], Check = None\<rparr>"]
    GetDataType_canonical [of "\<lparr>Name = ''at'', dataType = ''time without time zone'',
       Length = 0, Nullable = True, Default = [], IsAutoIncrement = True,
       IdentityGeneration = [], Check = None\<rparr>"]
    GetDataType_canonical [of "\<lparr>Name = ''n'', dataType = ''integer'', Length = 0,
       Nullable = True, Default = ''0'', IsAutoIncrement = False, IdentityGeneration = [],
       Check = None\<rparr>"]
    GetDataType_canonical [of "\<lparr>Name = ''n'', dataType = ''text'', Length = 0,
       Nullable = True, Default = [], IsAutoIncrement = True, IdentityGeneration = [],
       Check = None\<rparr>"]
  by simp

subsection \<open>Determinism of the assembled DDL\<close>

lemma mset_concat_map_perm:
  assumes "mset xs = mset ys"
  shows "mset (concat (map f xs)) = mset (concat (map f ys))"
proof -
  have "mset (concat (map f zs)) = sum_mset (image_mset (\<lambda>z. mset (f z)) (mset zs))" for zs
    by (induction zs) simp_all
  with assms show ?thesis by simp
qed

lemma mset_Join_statements_perm:
  assumes "mset us = mset us'"
  shows "mset (Join (s # map g (fixed @ map snd us)) sep)
         = mset (Join (s # map g (fixed @ map snd us')) sep)"
proof -
  have e: "concat (map (\<lambda>y. sep @ y) (map g (map snd zs)))
          = concat (map (\<lambda>z. sep @ g (snd z)) zs)" for zs
    by (simp add: o_def)
  have "mset (concat (map (\<lambda>y. sep @ y) (map g (map snd us))))
           = mset (concat (map (\<lambda>y. sep @ y) (map g (map snd us'))))"
    unfolding e by (rule mset_concat_map_perm [OF assms])
  then show ?thesis
    by (simp add: Join_Cons)
qed

text \<open>
  C1, as stated: two invocations of \<open>buildDumpTableDDL\<close> on the same input give the same
  string, also when a constraint map holds more than one entry. The two \<^verbatim>\<open>range\<close> loops
  of the function visit the maps in the order the runtime picks, and nothing sorts the
  entries: with two multi-column check constraints, the two legal orders give two
  different strings.
\<close>

theorem buildDumpTableDDL_order_counterexample:
  "distinct (map fst [(''a_b_check'', ''CHECK (a < b)''), (''b_c_check'', ''CHECK (b < c)'')])
   \<and> visits id [(''a_b_check'', ''CHECK (a < b)''), (''b_c_check'', ''CHECK (b < c)'')]
   \<and> visits rev [(''a_b_check'', ''CHECK (a < b)''), (''b_c_check'', ''CHECK (b < c)'')]
   \<and> buildDumpTableDDL id id ''public.t'' sample_columns [] [] [] []
        [(''a_b_check'', ''CHECK (a < b)''), (''b_c_check'', ''CHECK (b < c)'')] []
      \<noteq> buildDumpTableDDL rev id ''public.t'' sample_columns [] [] [] []
        [(''a_b_check'', ''CHECK (a < b)''), (''b_c_check'', ''CHECK (b < c)'')] []"
  by (simp add: visits_def buildDumpTableDDL_sections)

text \<open>
  C1, amended: \<open>buildDumpTableDDL\<close> writes the \<open>CONSTRAINT\<close> clauses in the order in
  which the check-constraint map is visited and the trailing \<open>ALTER TABLE\<close> statements
  in the order in which the unique-constraint map is visited; everything else is fixed
  by the input. So, for maps of any size and any legal visiting orders, two invocations
  on the same input write the same clauses and statements, and strings of the same
  length made of the same characters; the two strings are identical whenever both
  invocations visit each map in the same order, and in particular whenever each map
  holds at most one entry.
\<close>

theorem buildDumpTableDDL_determinism:
  assumes "visits rc checkConstraints" and "visits rc' checkConstraints"
    and "visits ru uniqueConstraints" and "visits ru' uniqueConstraints"
  shows
   "buildDumpTableDDL rc ru table columns pkeyCols indexDefs foreignDefs policyDefs
       checkConstraints uniqueConstraints =
     ''CREATE TABLE '' @ table @ '' (''
     @ Join (map (\<lambda>c. nl @ indent @ column_text c) columns) '',''
     @ (if pkeyCols = [] then []
        else '','' @ nl @ indent @ ''PRIMARY KEY (''
             @ Join (map (\<lambda>c. dquote @ c @ dquote) pkeyCols) '', '' @ '')'')
     @ concat (map (\<lambda>(n, d). '','' @ nl @ indent @ ''CONSTRAINT '' @ n @ '' '' @ d)
                (rc checkConstraints))
     @ nl
     @ Join ('');'' # map (\<lambda>v. v @ '';'')
                      (indexDefs @ foreignDefs @ policyDefs @ map snd (ru uniqueConstraints)))
         nl
    \<and> mset (rc checkConstraints) = mset (rc' checkConstraints)
    \<and> mset (ru uniqueConstraints) = mset (ru' uniqueConstraints)
    \<and> mset (buildDumpTableDDL rc ru table columns pkeyCols indexDefs foreignDefs policyDefs
              checkConstraints uniqueConstraints)
      = mset (buildDumpTableDDL rc' ru' table columns pkeyCols indexDefs foreignDefs
              policyDefs checkConstraints uniqueConstraints)
    \<and> length (buildDumpTableDDL rc ru table columns pkeyCols indexDefs foreignDefs policyDefs
              checkConstraints uniqueConstraints)
      = length (buildDumpTableDDL rc' ru' table columns pkeyCols indexDefs foreignDefs
              policyDefs checkConstraints uniqueConstraints)
    \<and> (rc checkConstraints = rc' checkConstraints
         \<and> ru uniqueConstraints = ru' uniqueConstraints
        \<longrightarrow> buildDumpTableDDL rc ru table columns pkeyCols indexDefs foreignDefs policyDefs
              checkConstraints uniqueConstraints
            = buildDumpTableDDL rc' ru' table columns pkeyCols indexDefs foreignDefs
              policyDefs checkConstraints uniqueConstraints)
    \<and> (length checkConstraints \<le> 1 \<and> length uniqueConstraints \<le> 1
        \<longrightarrow> buildDumpTableDDL rc ru table columns pkeyCols indexDefs foreignDefs policyDefs
              checkConstraints uniqueConstraints
            = buildDumpTableDDL rc' ru' table columns pkeyCols indexDefs foreignDefs
              policyDefs checkConstraints uniqueConstraints)"
proof -
  have c: "mset (rc checkConstraints) = mset (rc' checkConstraints)"
    using assms by (simp add: visits_def)
  have u: "mset (ru uniqueConstraints) = mset (ru' uniqueConstraints)"
    using assms by (simp add: visits_def)
  have m: "mset (buildDumpTableDDL rc ru table columns pkeyCols indexDefs foreignDefs
              policyDefs checkConstraints uniqueConstraints)
      = mset (buildDumpTableDDL rc' ru' table columns pkeyCols indexDefs foreignDefs
              policyDefs checkConstraints uniqueConstraints)"
    unfolding buildDumpTableDDL_sections
    using mset_concat_map_perm [OF c,
        of "\<lambda>(n, d). '','' @ nl @ indent @ ''CONSTRAINT '' @ n @ '' '' @ d"]
      mset_Join_statements_perm [OF u, of "'');''" "\<lambda>v. v @ '';''"
        "indexDefs @ foreignDefs @ policyDefs" nl]
    by (simp only: mset_append append.assoc)
  have l: "length (buildDumpTableDDL rc ru table columns pkeyCols indexDefs foreignDefs
              policyDefs checkConstraints uniqueConstraints)
      = length (buildDumpTableDDL rc' ru' table columns pkeyCols indexDefs foreignDefs
              policyDefs checkConstraints uniqueConstraints)"
    using m by (rule mset_eq_length)
  have s: "rc checkConstraints = rc' checkConstraints
         \<and> ru uniqueConstraints = ru' uniqueConstraints
        \<longrightarrow> buildDumpTableDDL rc ru table columns pkeyCols indexDefs foreignDefs policyDefs
              checkConstraints uniqueConstraints
            = buildDumpTableDDL rc' ru' table columns pkeyCols indexDefs foreignDefs
              policyDefs checkConstraints uniqueConstraints"
    by (simp add: buildDumpTableDDL_def)
  have "length checkConstraints \<le> 1 \<and> length uniqueConstraints \<le> 1
        \<longrightarrow> rc checkConstraints = rc' checkConstraints
            \<and> ru uniqueConstraints = ru' uniqueConstraints"
    using assms by (simp add: visits_short)
  with s have k: "length checkConstraints \<le> 1 \<and> length uniqueConstraints \<le> 1
        \<longrightarrow> buildDumpTableDDL rc ru table columns pkeyCols indexDefs foreignDefs policyDefs
              checkConstraints uniqueConstraints
            = buildDumpTableDDL rc' ru' table columns pkeyCols indexDefs foreignDefs
              policyDefs checkConstraints uniqueConstraints"
    by blast
  show ?thesis
    by (intro conjI buildDumpTableDDL_sections c u m l s k)
qed

theorem buildDumpTableDDL_determinism_witness:
  "visits id [(''a_b_check'', ''CHECK (a < b)''), (''b_c_check'', ''CHECK (b < c)'')]
   \<and> visits rev [(''a_b_check'', ''CHECK (a < b)''), (''b_c_check'', ''CHECK (b < c)'')]
   \<and> visits id
        [(''t_a_key'', ''ALTER TABLE public.t ADD CONSTRAINT t_a_key UNIQUE (a)''),
         (''t_b_key'', ''ALTER TABLE public.t ADD CONSTRAINT t_b_key UNIQUE (b)'')]
   \<and> visits rev
        [(''t_a_key'', ''ALTER TABLE public.t ADD CONSTRAINT t_a_key UNIQUE (a)''),
         (''t_b_key'', ''ALTER TABLE public.t ADD CONSTRAINT t_b_key UNIQUE (b)'')]
   \<and> buildDumpTableDDL id id ''public.t'' sample_columns [''a''] [] [] []
        [(''a_b_check'', ''CHECK (a < b)''), (''b_c_check'', ''CHECK (b < c)'')]
        [(''t_a_key'', ''ALTER TABLE public.t ADD CONSTRAINT t_a_key UNIQUE (a)''),
         (''t_b_key'', ''ALTER TABLE public.t ADD CONSTRAINT t_b_key UNIQUE (b)'')]
      = ''CREATE TABLE public.t ('' @ nl
        @ ''    '' @ dquote @ ''a'' @ dquote @ '' integer NOT NULL,'' @ nl
        @ ''    '' @ dquote @ ''b'' @ dquote @ '' integer NOT NULL,'' @ nl
        @ ''    '' @ dquote @ ''c'' @ dquote @ '' integer NOT NULL,'' @ nl
        @ ''    PRIMARY KEY ('' @ dquote @ ''a'' @ dquote @ ''),'' @ nl
        @ ''    CONSTRAINT a_b_check CHECK (a < b),'' @ nl
        @ ''    CONSTRAINT b_c_check CHECK (b < c)'' @ nl
        @ '');'' @ nl
        @ ''ALTER TABLE public.t ADD CONSTRAINT t_a_key UNIQUE (a);'' @ nl
        @ ''ALTER TABLE public.t ADD CONSTRAINT t_b_key UNIQUE (b);''
   \<and> buildDumpTableDDL rev rev ''public.t'' sample_columns [''a''] [] [] []
        [(''a_b_check'', ''CHECK (a < b)''), (''b_c_check'', ''CHECK (b < c)'')]
        [(''t_a_key'', ''ALTER TABLE public.t ADD CONSTRAINT t_a_key UNIQUE (a)''),
         (''t_b_key'', ''ALTER TABLE public.t ADD CONSTRAINT t_b_key UNIQUE (b)'')]
      = ''CREATE TABLE public.t ('' @ nl
        @ ''    '' @ dquote @ ''a'' @ dquote @ '' integer NOT NULL,'' @ nl
        @ ''    '' @ dquote @ ''b'' @ dquote @ '' integer NOT NULL,'' @ nl
        @ ''    '' @ dquote @ ''c'' @ dquote @ '' integer NOT NULL,'' @ nl
        @ ''    PRIMARY KEY ('' @ dquote @ ''a'' @ dquote @ ''),'' @ nl
        @ ''    CONSTRAINT b_c_check CHECK (b < c),'' @ nl
        @ ''    CONSTRAINT a_b_check CHECK (a < b)'' @ nl
        @ '');'' @ nl
        @ ''ALTER TABLE public.t ADD CONSTRAINT t_b_key UNIQUE (b);'' @ nl
        @ ''ALTER TABLE public.t ADD CONSTRAINT t_a_key UNIQUE (a);''
   \<and> mset (buildDumpTableDDL id id ''public.t'' sample_columns [''a''] [] [] []
        [(''a_b_check'', ''CHECK (a < b)''), (''b_c_check'', ''CHECK (b < c)'')]
        [(''t_a_key'', ''ALTER TABLE public.t ADD CONSTRAINT t_a_key UNIQUE (a)''),
         (''t_b_key'', ''ALTER TABLE public.t ADD CONSTRAINT t_b_key UNIQUE (b)'')])
      = mset (buildDumpTableDDL rev rev ''public.t'' sample_columns [''a''] [] [] []
        [(''a_b_check'', ''CHECK (a < b)''), (''b_c_check'', ''CHECK (b < c)'')]
        [(''t_a_key'', ''ALTER TABLE public.t ADD CONSTRAINT t_a_key UNIQUE (a)''),
         (''t_b_key'', ''ALTER TABLE public.t ADD CONSTRAINT t_b_key UNIQUE (b)'')])
   \<and> length [(''a_b_check'', ''CHECK (a < b)'')] \<le> 1
   \<and> length [(''t_a_key'', ''ALTER TABLE public.t ADD CONSTRAINT t_a_key UNIQUE (a)'')] \<le> 1
   \<and> visits id [(''a_b_check'', ''CHECK (a < b)'')]
   \<and> visits rev [(''a_b_check'', ''CHECK (a < b)'')]
   \<and> visits id [(''t_a_key'', ''ALTER TABLE public.t ADD CONSTRAINT t_a_key UNIQUE (a)'')]
   \<and> visits rev [(''t_a_key'', ''ALTER TABLE public.t ADD CONSTRAINT t_a_key UNIQUE (a)'')]
   \<and> buildDumpTableDDL id id ''public.t'' sample_columns [''a''] [] [] []
        [(''a_b_check'', ''CHECK (a < b)'')]
        [(''t_a_key'', ''ALTER TABLE public.t ADD CONSTRAINT t_a_key UNIQUE (a)'')]
      = buildDumpTableDDL rev rev ''public.t'' sample_columns [''a''] [] [] []
        [(''a_b_check'', ''CHECK (a < b)'')]
        [(''t_a_key'', ''ALTER TABLE public.t ADD CONSTRAINT t_a_key UNIQUE (a)'')]"
proof -
  let ?cc = "[(''a_b_check'', ''CHECK (a < b)''), (''b_c_check'', ''CHECK (b < c)'')]"
  let ?uc = "[(''t_a_key'', ''ALTER TABLE public.t ADD CONSTRAINT t_a_key UNIQUE (a)''),
              (''t_b_key'', ''ALTER TABLE public.t ADD CONSTRAINT t_b_key UNIQUE (b)'')]"
  let ?c1 = "[(''a_b_check'', ''CHECK (a < b)'')]"
  let ?u1 = "[(''t_a_key'', ''ALTER TABLE public.t ADD CONSTRAINT t_a_key UNIQUE (a)'')]"
  have v: "visits id ?cc" "visits rev ?cc" "visits id ?uc" "visits rev ?uc"
    by (simp_all add: visits_def)
  have w: "visits id ?c1" "visits rev ?c1" "visits id ?u1" "visits rev ?u1"
    by (simp_all add: visits_def)
  have l: "length ?c1 \<le> 1" "length ?u1 \<le> 1"
    by simp_all
  note a = buildDumpTableDDL_determinism [OF v(1) v(2) v(3) v(4),
      of "''public.t''" sample_columns "[''a'']" "[]" "[]" "[]"]
  note b = buildDumpTableDDL_determinism [OF v(2) v(1) v(4) v(3),
      of "''public.t''" sample_columns "[''a'']" "[]" "[]" "[]"]
  note c = buildDumpTableDDL_determinism [OF w(1) w(2) w(3) w(4),
      of "''public.t''" sample_columns "[''a'']" "[]" "[]" "[]"]
  have 1: "buildDumpTableDDL id id ''public.t'' sample_columns [''a''] [] [] [] ?cc ?uc
      = ''CREATE TABLE public.t ('' @ nl
        @ ''    '' @ dquote @ ''a'' @ dquote @ '' integer NOT NULL,'' @ nl
        @ ''    '' @ dquote @ ''b'' @ dquote @ '' integer NOT NULL,'' @ nl
        @ ''    '' @ dquote @ ''c'' @ dquote @ '' integer NOT NULL,'' @ nl
        @ ''    PRIMARY KEY ('' @ dquote @ ''a'' @ dquote @ ''),'' @ nl
        @ ''    CONSTRAINT a_b_check CHECK (a < b),'' @ nl
        @ ''    CONSTRAINT b_c_check CHECK (b < c)'' @ nl
        @ '');'' @ nl
        @ ''ALTER TABLE public.t ADD CONSTRAINT t_a_key UNIQUE (a);'' @ nl
        @ ''ALTER TABLE public.t ADD CONSTRAINT t_b_key UNIQUE (b);''"
    unfolding conjunct1 [OF a]
    by (simp add: sample_columns_def column_text_def GetDataType_def indent_def)
  have 2: "buildDumpTableDDL rev rev ''public.t'' sample_columns [''a''] [] [] [] ?cc ?uc
      = ''CREATE TABLE public.t ('' @ nl
        @ ''    '' @ dquote @ ''a'' @ dquote @ '' integer NOT NULL,'' @ nl
        @ ''    '' @ dquote @ ''b'' @ dquote @ '' integer NOT NULL,'' @ nl
        @ ''    '' @ dquote @ ''c'' @ dquote @ '' integer NOT NULL,'' @ nl
        @ ''    PRIMARY KEY ('' @ dquote @ ''a'' @ dquote @ ''),'' @ nl
        @ ''    CONSTRAINT b_c_check CHECK (b < c),'' @ nl
        @ ''    CONSTRAINT a_b_check CHECK (a < b)'' @ nl
        @ '');'' @ nl
        @ ''ALTER TABLE public.t ADD CONSTRAINT t_b_key UNIQUE (b);'' @ nl
        @ ''ALTER TABLE public.t ADD CONSTRAINT t_a_key UNIQUE (a);''"
    unfolding conjunct1 [OF b]
    by (simp add: sample_columns_def column_text_def GetDataType_def indent_def)
  have 3: "mset (buildDumpTableDDL id id ''public.t'' sample_columns [''a''] [] [] [] ?cc ?uc)
      = mset (buildDumpTableDDL rev rev ''public.t'' sample_columns [''a''] [] [] [] ?cc ?uc)"
    by (rule a [THEN conjunct2, THEN conjunct2, THEN conjunct2, THEN conjunct1])
  have 4: "buildDumpTableDDL id id ''public.t'' sample_columns [''a''] [] [] [] ?c1 ?u1
      = buildDumpTableDDL rev rev ''public.t'' sample_columns [''a''] [] [] [] ?c1 ?u1"
    by (rule c [THEN conjunct2, THEN conjunct2, THEN conjunct2, THEN conjunct2,
          THEN conjunct2, THEN conjunct2, rule_format, OF conjI [OF l(1) l(2)]])
  show ?thesis
    by (intro conjI v w l 1 2 3 4)
qed

subsection \<open>The section order of the assembled DDL\<close>

lemma Join_contains:
  "x \<in> set xs \<Longrightarrow> \<exists>pre post. Join xs sep = pre @ x @ post"
proof (induction xs sep rule: Join.induct)
  case (1 sep)
  then show ?case by simp
next
  case (2 y sep)
  then have "Join [y] sep = [] @ x @ []" by simp
  then show ?case by blast
next
  case (3 a b ys sep)
  show ?case
  proof (cases "x = a")
    case True
    then have "Join (a # b # ys) sep = [] @ x @ (sep @ Join (b # ys) sep)" by simp
    then show ?thesis by blast
  next
    case False
    with 3 obtain pre post where "Join (b # ys) sep = pre @ x @ post" by auto
    then have "Join (a # b # ys) sep = (a @ sep @ pre) @ x @ post" by simp
    then show ?thesis by blast
  qed
qed

lemma buildDumpTableDDL_contains_column:
  assumes "col \<in> set columns"
  shows "\<exists>pre post. buildDumpTableDDL rc ru table columns pkeyCols indexDefs foreignDefs
            policyDefs cc uc = pre @ nl @ indent @ column_text col @ post"
proof -
  have "nl @ indent @ column_text col \<in> set (map (\<lambda>c. nl @ indent @ column_text c) columns)"
    using assms by auto
  then obtain pre post where
    j: "Join (map (\<lambda>c. nl @ indent @ column_text c) columns) '',''
          = pre @ (nl @ indent @ column_text col) @ post"
    using Join_contains by blast
  obtain rest where
    b: "buildDumpTableDDL rc ru table columns pkeyCols indexDefs foreignDefs policyDefs cc uc
      = (''CREATE TABLE '' @ table @ '' ('')
        @ Join (map (\<lambda>c. nl @ indent @ column_text c) columns) '','' @ rest"
    using buildDumpTableDDL_sections [of rc ru table columns pkeyCols indexDefs foreignDefs
        policyDefs cc uc]
    by (metis append.assoc)
  have "buildDumpTableDDL rc ru table columns pkeyCols indexDefs foreignDefs policyDefs cc uc
      = ((''CREATE TABLE '' @ table @ '' ('') @ pre) @ nl @ indent @ column_text col
        @ (post @ rest)"
    unfolding b j by (simp only: append.assoc)
  then show ?thesis by blast
qed

lemma buildDumpTableDDL_last:
  "buildDumpTableDDL rc ru table columns pkeyCols indexDefs foreignDefs policyDefs cc uc \<noteq> []
   \<and> last (buildDumpTableDDL rc ru table columns pkeyCols indexDefs foreignDefs policyDefs
             cc uc) = CHR '';''"
proof -
  define vs where "vs = indexDefs @ foreignDefs @ policyDefs @ map snd (ru uc)"
  define stmts where "stmts = '');'' # map (\<lambda>v. v @ '';'') vs"
  have ne: "stmts \<noteq> []" by (simp add: stmts_def)
  have "last stmts \<noteq> [] \<and> last (last stmts) = CHR '';''"
    by (cases vs rule: rev_cases) (simp_all add: stmts_def)
  with ne have j: "Join stmts nl \<noteq> [] \<and> last (Join stmts nl) = CHR '';''"
    using last_Join [of stmts nl] by simp
  obtain front where
    "buildDumpTableDDL rc ru table columns pkeyCols indexDefs foreignDefs policyDefs cc uc
      = front @ Join stmts nl"
    using buildDumpTableDDL_sections [of rc ru table columns pkeyCols indexDefs foreignDefs
        policyDefs cc uc]
    unfolding stmts_def vs_def by (metis append.assoc)
  with j show ?thesis by simp
qed

text \<open>
  C3, as stated, ends with: the function is pure, its result depends only on its
  arguments. The statements of the unique constraints are written in the order in which
  the runtime visits the map, so the same arguments can give two different strings.
\<close>

theorem buildDumpTableDDL_purity_counterexample:
  "distinct (map fst
      [(''t_a_key'', ''ALTER TABLE public.t ADD CONSTRAINT t_a_key UNIQUE (a)''),
       (''t_b_key'', ''ALTER TABLE public.t ADD CONSTRAINT t_b_key UNIQUE (b)'')])
   \<and> visits id
      [(''t_a_key'', ''ALTER TABLE public.t ADD CONSTRAINT t_a_key UNIQUE (a)''),
       (''t_b_key'', ''ALTER TABLE public.t ADD CONSTRAINT t_b_key UNIQUE (b)'')]
   \<and> visits rev
      [(''t_a_key'', ''ALTER TABLE public.t ADD CONSTRAINT t_a_key UNIQUE (a)''),
       (''t_b_key'', ''ALTER TABLE public.t ADD CONSTRAINT t_b_key UNIQUE (b)'')]
   \<and> buildDumpTableDDL id id ''public.t'' sample_columns [] [] [] [] []
      [(''t_a_key'', ''ALTER TABLE public.t ADD CONSTRAINT t_a_key UNIQUE (a)''),
       (''t_b_key'', ''ALTER TABLE public.t ADD CONSTRAINT t_b_key UNIQUE (b)'')]
     \<noteq> buildDumpTableDDL id rev ''public.t'' sample_columns [] [] [] [] []
      [(''t_a_key'', ''ALTER TABLE public.t ADD CONSTRAINT t_a_key UNIQUE (a)''),
       (''t_b_key'', ''ALTER TABLE public.t ADD CONSTRAINT t_b_key UNIQUE (b)'')]"
  by (simp add: visits_def buildDumpTableDDL_sections)

text \<open>
  C3, amended: \<open>buildDumpTableDDL\<close> assembles its output in a fixed section order: the
  \<open>CREATE TABLE\<close> header with one indented, comma-separated line per column in list
  order; a \<open>PRIMARY KEY\<close> clause exactly when the primary-key column list is not empty;
  one \<open>CONSTRAINT\<close> clause per multi-column check constraint; the closing \<open>);\<close>; then
  one statement suffixed with \<open>;\<close> per index definition, per foreign-key definition, per
  policy definition and per unique constraint, each on a line of its own. The result is
  never empty and its last character is \<open>;\<close>, so it never ends with a newline (the one
  trailing newline is trimmed). The function does no input or output; its result
  depends only on its arguments and on the order in which the two maps are visited.
\<close>

theorem buildDumpTableDDL_section_order:
  "buildDumpTableDDL rc ru table columns pkeyCols indexDefs foreignDefs policyDefs
       checkConstraints uniqueConstraints =
     ''CREATE TABLE '' @ table @ '' (''
     @ Join (map (\<lambda>c. nl @ indent @ column_text c) columns) '',''
     @ (if pkeyCols = [] then []
        else '','' @ nl @ indent @ ''PRIMARY KEY (''
             @ Join (map (\<lambda>c. dquote @ c @ dquote) pkeyCols) '', '' @ '')'')
     @ concat (map (\<lambda>(n, d). '','' @ nl @ indent @ ''CONSTRAINT '' @ n @ '' '' @ d)
                (rc checkConstraints))
     @ nl
     @ Join ('');'' # map (\<lambda>v. v @ '';'')
                      (indexDefs @ foreignDefs @ policyDefs @ map snd (ru uniqueConstraints)))
         nl
   \<and> buildDumpTableDDL rc ru table columns pkeyCols indexDefs foreignDefs policyDefs
        checkConstraints uniqueConstraints \<noteq> []
   \<and> last (buildDumpTableDDL rc ru table columns pkeyCols indexDefs foreignDefs policyDefs
        checkConstraints uniqueConstraints) = CHR '';''
   \<and> (rc' checkConstraints = rc checkConstraints
        \<and> ru' uniqueConstraints = ru uniqueConstraints
      \<longrightarrow> buildDumpTableDDL rc' ru' table columns pkeyCols indexDefs foreignDefs policyDefs
            checkConstraints uniqueConstraints
          = buildDumpTableDDL rc ru table columns pkeyCols indexDefs foreignDefs policyDefs
            checkConstraints uniqueConstraints)"
proof -
  have "rc' checkConstraints = rc checkConstraints
        \<and> ru' uniqueConstraints = ru uniqueConstraints
      \<longrightarrow> buildDumpTableDDL rc' ru' table columns pkeyCols indexDefs foreignDefs policyDefs
            checkConstraints uniqueConstraints
          = buildDumpTableDDL rc ru table columns pkeyCols indexDefs foreignDefs policyDefs
            checkConstraints uniqueConstraints"
    by (simp add: buildDumpTableDDL_def)
  then show ?thesis
    using buildDumpTableDDL_sections [of rc ru table columns pkeyCols indexDefs foreignDefs
        policyDefs checkConstraints uniqueConstraints]
      buildDumpTableDDL_last [of rc ru table columns pkeyCols indexDefs foreignDefs
        policyDefs checkConstraints uniqueConstraints]
    by blast
qed

theorem buildDumpTableDDL_section_order_witness:
  "rev ([] :: gomap) = id []
   \<and> rev [(''users_email_key'',
           ''ALTER TABLE public.users ADD CONSTRAINT users_email_key UNIQUE (email)'')]
     = id [(''users_email_key'',
           ''ALTER TABLE public.users ADD CONSTRAINT users_email_key UNIQUE (email)'')]
   \<and> buildDumpTableDDL rev rev ''public.users''
       [\<lparr>Name = ''id'', dataType = ''integer'', Length = 0, Nullable = False,
          Default = ''nextval('users_id_seq'::regclass)'', IsAutoIncrement = True,
          IdentityGeneration = [], Check = None\<rparr>,
        \<lparr>Name = ''email'', dataType = ''character varying'', Length = 255,
          Nullable = False, Default = [], IsAutoIncrement = False, IdentityGeneration = [],
          Check = None\<rparr>]
       [''id''] [] [] [] []
       [(''users_email_key'',
         ''ALTER TABLE public.users ADD CONSTRAINT users_email_key UNIQUE (email)'')]
     = ''CREATE TABLE public.users ('' @ nl
       @ ''    '' @ dquote @ ''id'' @ dquote @ '' serial NOT NULL,'' @ nl
       @ ''    '' @ dquote @ ''email'' @ dquote @ '' character varying(255) NOT NULL,'' @ nl
       @ ''    PRIMARY KEY ('' @ dquote @ ''id'' @ dquote @ '')'' @ nl
       @ '');'' @ nl
       @ ''ALTER TABLE public.users ADD CONSTRAINT users_email_key UNIQUE (email);''"
  using buildDumpTableDDL_section_order [of id id "''public.users''"
       "[\<lparr>Name = ''id'', dataType = ''integer'', Length = 0, Nullable = False,
          Default = ''nextval('users_id_seq'::regclass)'', IsAutoIncrement = True,
          IdentityGeneration = [], Check = None\<rparr>,
        \<lparr>Name = ''email'', dataType = ''character varying'', Length = 255,
          Nullable = False, Default = [], IsAutoIncrement = False, IdentityGeneration = [],
          Check = None\<rparr>]"
       "[''id'']" "[]" "[]" "[]" "[]"
       "[(''users_email_key'',
         ''ALTER TABLE public.users ADD CONSTRAINT users_email_key UNIQUE (email)'')]"
       rev rev]
  by (simp add: column_text_def GetDataType_def itoa_def digits.simps indent_def)

subsection \<open>The DEFAULT clause of a column\<close>

text \<open>
  C2. Let \<open>col\<close> be the column that \<open>getColumns\<close> makes of a catalog row. If the
  default expression of the row begins with \<open>nextval(\<close>, the column is auto-increment
  and its rendered line is the name, type, length and \<open>NOT NULL\<close> part immediately
  followed by the identity and check part: no \<open>DEFAULT\<close> clause is written, and the line
  is the one of the same column without a default expression. If the default expression
  is present, not empty and does not begin with \<open>nextval(\<close>, the line has
  \<open>DEFAULT\<close> followed by the expression, verbatim, between these two parts. The line
  of every column of the list is part of the assembled DDL.
\<close>

theorem column_default_clause:
  assumes "column_of_row (colName, colDefault, isNullable, maxLenStr, dataType0, idGen,
             checkName, checkDefinition) = Inr col"
  shows
   "(let before = dquote @ Name col @ dquote @ '' '' @ GetDataType col
                  @ (if Length col > 0 then ''('' @ itoa (Length col) @ '')'' else [])
                  @ (if Nullable col then [] else '' NOT NULL'');
         after = (if IdentityGeneration col = [] then []
                  else '' GENERATED '' @ IdentityGeneration col @ '' AS IDENTITY'')
                 @ (case Check col of None \<Rightarrow> []
                    | Some ck \<Rightarrow> '' CONSTRAINT '' @ cc_name ck @ '' '' @ cc_definition ck)
     in (\<forall>dflt. colDefault = Some dflt \<and> HasPrefix dflt ''nextval('' \<longrightarrow>
            IsAutoIncrement col
            \<and> column_text col = before @ after
            \<and> column_text col = column_text (col\<lparr>Default := []\<rparr>))
        \<and> (\<forall>dflt. colDefault = Some dflt \<and> \<not> HasPrefix dflt ''nextval('' \<and> dflt \<noteq> [] \<longrightarrow>
            \<not> IsAutoIncrement col
            \<and> column_text col = before @ '' DEFAULT '' @ dflt @ after))
    \<and> (col \<in> set columns \<longrightarrow>
         (\<exists>pre post.
            buildDumpTableDDL rc ru table columns pkeyCols indexDefs foreignDefs policyDefs
              checkConstraints uniqueConstraints
            = pre @ nl @ indent @ column_text col @ post))"
proof -
  from assms have
    a: "IsAutoIncrement col
          = (case colDefault of None \<Rightarrow> False | Some dflt \<Rightarrow> HasPrefix dflt ''nextval('')"
    and d: "Default col = (case colDefault of None \<Rightarrow> [] | Some dflt \<Rightarrow> dflt)"
    by (auto simp: column_of_row_def split: sum.splits)
  have 1: "\<forall>dflt. colDefault = Some dflt \<and> HasPrefix dflt ''nextval('' \<longrightarrow>
            IsAutoIncrement col
            \<and> column_text col = (dquote @ Name col @ dquote @ '' '' @ GetDataType col
                  @ (if Length col > 0 then ''('' @ itoa (Length col) @ '')'' else [])
                  @ (if Nullable col then [] else '' NOT NULL''))
                @ ((if IdentityGeneration col = [] then []
                  else '' GENERATED '' @ IdentityGeneration col @ '' AS IDENTITY'')
                 @ (case Check col of None \<Rightarrow> []
                    | Some ck \<Rightarrow> '' CONSTRAINT '' @ cc_name ck @ '' '' @ cc_definition ck))
            \<and> column_text col = column_text (col\<lparr>Default := []\<rparr>)"
    using a d by (simp add: column_text_def GetDataType_def)
  have 2: "\<forall>dflt. colDefault = Some dflt \<and> \<not> HasPrefix dflt ''nextval('' \<and> dflt \<noteq> [] \<longrightarrow>
            \<not> IsAutoIncrement col
            \<and> column_text col = (dquote @ Name col @ dquote @ '' '' @ GetDataType col
                  @ (if Length col > 0 then ''('' @ itoa (Length col) @ '')'' else [])
                  @ (if Nullable col then [] else '' NOT NULL''))
                @ '' DEFAULT '' @ dflt
                @ ((if IdentityGeneration col = [] then []
                  else '' GENERATED '' @ IdentityGeneration col @ '' AS IDENTITY'')
                 @ (case Check col of None \<Rightarrow> []
                    | Some ck \<Rightarrow> '' CONSTRAINT '' @ cc_name ck @ '' '' @ cc_definition ck))"
    using a d by (simp add: column_text_def)
  have 3: "col \<in> set columns \<longrightarrow>
         (\<exists>pre post.
            buildDumpTableDDL rc ru table columns pkeyCols indexDefs foreignDefs policyDefs
              checkConstraints uniqueConstraints
            = pre @ nl @ indent @ column_text col @ post)"
    using buildDumpTableDDL_contains_column by blast
  from 1 2 3 show ?thesis
    unfolding Let_def by blast
qed

theorem column_default_clause_witness:
  "column_of_row (''id'', Some ''nextval('users_id_seq'::regclass)'', ''NO'', None,
       ''integer'', None, None, None)
     = Inr \<lparr>Name = ''id'', dataType = ''integer'', Length = 0, Nullable = False,
          Default = ''nextval('users_id_seq'::regclass)'', IsAutoIncrement = True,
          IdentityGeneration = [], Check = None\<rparr>
   \<and> HasPrefix ''nextval('users_id_seq'::regclass)'' ''nextval(''
   \<and> column_text \<lparr>Name = ''id'', dataType = ''integer'', Length = 0, Nullable = False,
          Default = ''nextval('users_id_seq'::regclass)'', IsAutoIncrement = True,
          IdentityGeneration = [], Check = None\<rparr>
       = dquote @ ''id'' @ dquote @ '' serial NOT NULL''
   \<and> column_of_row (''state'', Some '''new'::text'', ''YES'', Some ''16'',
       ''character varying'', None, None, None)
     = Inr \<lparr>Name = ''state'', dataType = ''character varying'', Length = 16,
          Nullable = True, Default = '''new'::text'', IsAutoIncrement = False,
          IdentityGeneration = [], Check = None\<rparr>
   \<and> \<not> HasPrefix '''new'::text'' ''nextval(''
   \<and> column_text \<lparr>Name = ''state'', dataType = ''character varying'', Length = 16,
          Nullable = True, Default = '''new'::text'', IsAutoIncrement = False,
          IdentityGeneration = [], Check = None\<rparr>
       = dquote @ ''state'' @ dquote @ '' character varying(16) DEFAULT 'new'::text''
   \<and> (\<exists>pre post.
        buildDumpTableDDL id id ''public.users''
          [\<lparr>Name = ''id'', dataType = ''integer'', Length = 0, Nullable = False,
             Default = ''nextval('users_id_seq'::regclass)'', IsAutoIncrement = True,
             IdentityGeneration = [], Check = None\<rparr>] [''id''] [] [] [] [] []
        = pre @ nl @ indent @ dquote @ ''id'' @ dquote @ '' serial NOT NULL'' @ post)"
proof -
  have r1: "column_of_row (''id'', Some ''nextval('users_id_seq'::regclass)'', ''NO'', None,
       ''integer'', None, None, None)
     = Inr \<lparr>Name = ''id'', dataType = ''integer'', Length = 0, Nullable = False,
          Default = ''nextval('users_id_seq'::regclass)'', IsAutoIncrement = True,
          IdentityGeneration = [], Check = None\<rparr>"
    by (simp add: column_of_row_def Trim_def dquote_def HasPrefix_def)
  have r2: "column_of_row (''state'', Some '''new'::text'', ''YES'', Some ''16'',
       ''character varying'', None, None, None)
     = Inr \<lparr>Name = ''state'', dataType = ''character varying'', Length = 16,
          Nullable = True, Default = '''new'::text'', IsAutoIncrement = False,
          IdentityGeneration = [], Check = None\<rparr>"
    by (simp add: column_of_row_def Trim_def dquote_def HasPrefix_def Atoi_def is_digit_def
        parse_digits_def digit_val_def)
  have p: "HasPrefix ''nextval('users_id_seq'::regclass)'' ''nextval(''"
          "\<not> HasPrefix '''new'::text'' ''nextval(''"
    by (simp_all add: HasPrefix_def)
  note t1 = column_default_clause [OF r1, of
        "[\<lparr>Name = ''id'', dataType = ''integer'', Length = 0, Nullable = False,
             Default = ''nextval('users_id_seq'::regclass)'', IsAutoIncrement = True,
             IdentityGeneration = [], Check = None\<rparr>]" id id "''public.users''"
        "[''id'']" "[]" "[]" "[]" "[]" "[]"]
  note t2 = column_default_clause [OF r2, of "[]" id id "''public.users''"
        "[]" "[]" "[]" "[]" "[]" "[]"]
  have c1: "column_text \<lparr>Name = ''id'', dataType = ''integer'', Length = 0, Nullable = False,
          Default = ''nextval('users_id_seq'::regclass)'', IsAutoIncrement = True,
          IdentityGeneration = [], Check = None\<rparr>
       = dquote @ ''id'' @ dquote @ '' serial NOT NULL''"
    using t1 p(1) by (simp add: Let_def GetDataType_def)
  have c2: "column_text \<lparr>Name = ''state'', dataType = ''character varying'', Length = 16,
          Nullable = True, Default = '''new'::text'', IsAutoIncrement = False,
          IdentityGeneration = [], Check = None\<rparr>
       = dquote @ ''state'' @ dquote @ '' character varying(16) DEFAULT 'new'::text''"
    using t2 p(2) by (simp add: Let_def GetDataType_def itoa_def digits.simps)
  have "\<exists>pre post.
        buildDumpTableDDL id id ''public.users''
          [\<lparr>Name = ''id'', dataType = ''integer'', Length = 0, Nullable = False,
             Default = ''nextval('users_id_seq'::regclass)'', IsAutoIncrement = True,
             IdentityGeneration = [], Check = None\<rparr>] [''id''] [] [] [] [] []
        = pre @ nl @ indent @ column_text \<lparr>Name = ''id'', dataType = ''integer'',
             Length = 0, Nullable = False,
             Default = ''nextval('users_id_seq'::regclass)'', IsAutoIncrement = True,
             IdentityGeneration = [], Check = None\<rparr> @ post"
    using conjunct2 [OF t1] by simp
  then have c3: "\<exists>pre post.
        buildDumpTableDDL id id ''public.users''
          [\<lparr>Name = ''id'', dataType = ''integer'', Length = 0, Nullable = False,
             Default = ''nextval('users_id_seq'::regclass)'', IsAutoIncrement = True,
             IdentityGeneration = [], Check = None\<rparr>] [''id''] [] [] [] [] []
        = pre @ nl @ indent @ dquote @ ''id'' @ dquote @ '' serial NOT NULL'' @ post"
    unfolding c1 by (simp only: append.assoc)
  from r1 r2 p c1 c2 c3 show ?thesis
    by blast
qed

subsection \<open>Rows, loops and the policy query\<close>

lemma for_rows_append:
  "for_rows (map Inr rows) (\<lambda>acc r. Inr (acc @ [f r])) acc = Inr (acc @ map f rows)"
  by (induction rows arbitrary: acc) auto

lemma for_rows_append_inv:
  "for_rows rs (\<lambda>acc r. Inr (acc @ [f r])) acc = Inr out
     \<Longrightarrow> \<exists>rows. rs = map Inr rows \<and> out = acc @ map f rows"
proof (induction rs arbitrary: acc)
  case Nil
  then show ?case by simp
next
  case (Cons a rs)
  show ?case
  proof (cases a)
    case (Inl e)
    with Cons.prems show ?thesis by simp
  next
    case (Inr r)
    with Cons.prems have "for_rows rs (\<lambda>acc r. Inr (acc @ [f r])) (acc @ [f r]) = Inr out"
      by simp
    from Cons.IH [OF this] obtain rows where
      "rs = map Inr rows" and "out = (acc @ [f r]) @ map f rows" by blast
    with Inr have "a # rs = map Inr (r # rows) \<and> out = acc @ map f (r # rows)" by simp
    then show ?thesis by (rule exI [of _ "r # rows"])
  qed
qed

lemma collect_append:
  "collect (Inr (map Inr rows)) (\<lambda>acc r. Inr (acc @ [f r])) [] nil = (map f rows, None)"
  by (simp add: collect_def for_rows_append)

lemma collect_append_inv:
  "collect res (\<lambda>acc r. Inr (acc @ [f r])) [] nil = (out, None)
     \<Longrightarrow> \<exists>rows. res = Inr (map Inr rows) \<and> out = map f rows"
  by (auto simp: collect_def split: sum.splits dest: for_rows_append_inv)

lemma collect_error: "collect res body init nil = (v, Some e) \<Longrightarrow> v = nil"
  by (auto simp: collect_def split: sum.splits)

lemma for_rows_last_setting:
  "for_rows (map Inr rows) (\<lambda>version (name, setting, min_val, max_val). Inr setting) acc
     = Inr (if rows = [] then acc else fst (snd (last rows)))"
  by (induction rows arbitrary: acc) (auto split: prod.splits)

lemma r9_MatchString_prefix: "r9_MatchString version = HasPrefix version ''9''"
  by (cases version) (auto simp: r9_MatchString_def HasPrefix_def)

lemma map_sum_rows_inv:
  "map (map_sum g f) xs = map Inr rows
     \<Longrightarrow> \<exists>rows0. xs = map Inr rows0 \<and> rows = map f rows0"
proof (induction xs arbitrary: rows)
  case Nil
  then show ?case by simp
next
  case (Cons a xs)
  then obtain r rows' where rows: "rows = r # rows'" by (cases rows) auto
  with Cons.prems have a: "map_sum g f a = Inr r" and "map (map_sum g f) xs = map Inr rows'"
    by auto
  from Cons.IH [OF this(2)] obtain rows0 where
    xs: "xs = map Inr rows0" "rows' = map f rows0" by blast
  from a obtain r0 where "a = Inr r0" "r = f r0" by (cases a) auto
  with xs rows have "a # xs = map Inr (r0 # rows0) \<and> rows = map f (r0 # rows0)" by simp
  then show ?case by (rule exI [of _ "r0 # rows0"])
qed

lemma run_policy_query_issue [simp]:
  "run_policy_query q (issue x d) schema table = run_policy_query q d schema table"
  by (cases q) (simp_all add: run_policy_query_def issue_def)

lemma run_policy_query_none_inv:
  "run_policy_query queryNone d schema table = Inr (map Inr rows)
     \<Longrightarrow> \<exists>rows0. pg_policies d schema table = Inr (map Inr rows0)
           \<and> rows = map (\<lambda>(policyName, permissive, rest). (policyName, [], rest)) rows0"
  by (cases "pg_policies d schema table")
     (auto simp: run_policy_query_def dest: map_sum_rows_inv)

lemma Version_session [simp]: "snd (Version d) = issue SelectVersion d"
  by (simp add: Version_def)

lemma getPolicyDefs_unfold:
  "SplitTableName table0 = (schema, table) \<Longrightarrow>
   getPolicyDefs d table0 =
     (case fst (Version d) of
        (version, Some err) \<Rightarrow> (([], Some err), issue SelectVersion d)
      | (version, None) \<Rightarrow>
          (collect (run_policy_query
                      (if HasPrefix version ''9'' then queryNone else queryPermissive)
                      d schema table)
             (\<lambda>defs row. Inr (defs @ [policy_def table row])) [] [],
           issue (SelectPolicies
                    (if HasPrefix version ''9'' then queryNone else queryPermissive)
                    schema table)
             (issue SelectVersion d)))"
  by (cases "Version d")
     (auto simp: getPolicyDefs_def Version_def r9_MatchString_prefix split: option.splits)

lemma policy_def_explicit:
  "policy_def table (policyName, permissive, roles, cmd, qual, with_check) =
     ''CREATE POLICY '' @ policyName @ '' ON '' @ table @ '' AS '' @ permissive
     @ '' FOR '' @ cmd @ '' TO ''
     @ policyRolesSuffixRegex_remove (policyRolesPrefixRegex_remove roles)
     @ (case qual of None \<Rightarrow> [] | Some q \<Rightarrow> '' USING '' @ q)
     @ (case with_check of None \<Rightarrow> [] | Some w \<Rightarrow> '' WITH CHECK '' @ w)
     @ '';''"
  by (simp add: policy_def_def Let_def split: option.splits)

lemma policy_def_blank:
  "\<exists>rest'. policy_def table (policyName, [], rest)
      = ''CREATE POLICY '' @ policyName @ '' ON '' @ table @ '' AS  FOR '' @ rest'"
proof -
  obtain roles cmd qual with_check where "rest = (roles, cmd, qual, with_check)"
    by (cases rest) auto
  then show ?thesis
    by (simp add: policy_def_explicit)
qed

lemma getPolicyDefs_ok:
  assumes s: "SplitTableName table0 = (schema, table)"
    and v: "fst (Version d) = (version, None)"
    and r: "fst (getPolicyDefs d table0) = (defs, None)"
  shows "\<exists>rows. run_policy_query
                  (if HasPrefix version ''9'' then queryNone else queryPermissive)
                  d schema table = Inr (map Inr rows)
               \<and> defs = map (policy_def table) rows"
  using r unfolding getPolicyDefs_unfold [OF s] v
  by (auto dest: collect_append_inv)

lemma SplitTableName_users: "SplitTableName ''public.users'' = (''public'', ''users'')"
  by (simp add: SplitTableName_def)

subsection \<open>The policy query and the server version\<close>

text \<open>
  C5. \<open>getPolicyDefs\<close> asks for the server version exactly once per call. When the
  version is obtained, the call issues the version query followed by one policy query:
  the variant with the empty permissiveness literal when the version string begins with
  \<open>9\<close>, the variant reading the real column otherwise. In the first case every
  rendered policy is the one of its row with an empty permissiveness token (\<open>AS\<close>, two
  spaces, \<open>FOR\<close>); in the second the rows are rendered as they are.
\<close>

theorem getPolicyDefs_version_once:
  assumes "SplitTableName table0 = (schema, table)"
  shows
   "count_list (drop (length (issued d)) (issued (snd (getPolicyDefs d table0))))
      SelectVersion = 1
    \<and> (\<forall>version. fst (Version d) = (version, None) \<longrightarrow>
          issued (snd (getPolicyDefs d table0))
            = issued d @ [SelectVersion,
                          SelectPolicies
                            (if HasPrefix version ''9'' then queryNone else queryPermissive)
                            schema table]
          \<and> (\<forall>defs. fst (getPolicyDefs d table0) = (defs, None) \<longrightarrow>
               (\<exists>rows. pg_policies d schema table = Inr (map Inr rows)
                  \<and> (HasPrefix version ''9'' \<longrightarrow>
                       defs = map (\<lambda>(policyName, permissive, rest).
                                     policy_def table (policyName, [], rest)) rows
                       \<and> (\<forall>def \<in> set defs. \<exists>policyName rest.
                             def = ''CREATE POLICY '' @ policyName @ '' ON '' @ table
                                   @ '' AS  FOR '' @ rest))
                  \<and> (\<not> HasPrefix version ''9'' \<longrightarrow> defs = map (policy_def table) rows))))"
proof (intro conjI allI impI)
  show "count_list (drop (length (issued d)) (issued (snd (getPolicyDefs d table0))))
      SelectVersion = 1"
    unfolding getPolicyDefs_unfold [OF assms]
    by (cases "fst (Version d)") (auto simp: issue_def split: option.splits)
next
  fix version
  assume v: "fst (Version d) = (version, None)"
  show "issued (snd (getPolicyDefs d table0))
            = issued d @ [SelectVersion,
                          SelectPolicies
                            (if HasPrefix version ''9'' then queryNone else queryPermissive)
                            schema table]"
    unfolding getPolicyDefs_unfold [OF assms] v
    by (simp add: issue_def)
  fix defs
  assume r: "fst (getPolicyDefs d table0) = (defs, None)"
  from getPolicyDefs_ok [OF assms v r] obtain rows where
    q: "run_policy_query (if HasPrefix version ''9'' then queryNone else queryPermissive)
          d schema table = Inr (map Inr rows)"
    and defs: "defs = map (policy_def table) rows" by blast
  show "\<exists>rows. pg_policies d schema table = Inr (map Inr rows)
                  \<and> (HasPrefix version ''9'' \<longrightarrow>
                       defs = map (\<lambda>(policyName, permissive, rest).
                                     policy_def table (policyName, [], rest)) rows
                       \<and> (\<forall>def \<in> set defs. \<exists>policyName rest.
                             def = ''CREATE POLICY '' @ policyName @ '' ON '' @ table
                                   @ '' AS  FOR '' @ rest))
                  \<and> (\<not> HasPrefix version ''9'' \<longrightarrow> defs = map (policy_def table) rows)"
  proof (cases "HasPrefix version ''9''")
    case True
    with q obtain rows0 where
      p: "pg_policies d schema table = Inr (map Inr rows0)"
      and rows: "rows = map (\<lambda>(policyName, permissive, rest). (policyName, [], rest)) rows0"
      using run_policy_query_none_inv by fastforce
    have d0: "defs = map (\<lambda>(policyName, permissive, rest).
                            policy_def table (policyName, [], rest)) rows0"
      unfolding defs rows by (simp add: case_prod_unfold o_def)
    have "\<forall>def \<in> set defs. \<exists>policyName rest.
             def = ''CREATE POLICY '' @ policyName @ '' ON '' @ table @ '' AS  FOR '' @ rest"
      unfolding d0 using policy_def_blank by (fastforce simp: case_prod_unfold)
    with p d0 True show ?thesis by blast
  next
    case False
    with q have "pg_policies d schema table = Inr (map Inr rows)"
      by (simp add: run_policy_query_def)
    with defs False show ?thesis by blast
  qed
qed

theorem getPolicyDefs_version_once_witness:
  "SplitTableName ''public.users'' = (''public'', ''users'')
   \<and> fst (Version (sample_session ''90624'')) = (''90624'', None)
   \<and> HasPrefix ''90624'' ''9''
   \<and> getPolicyDefs (sample_session ''90624'') ''public.users''
       = (([''CREATE POLICY p_users ON users AS  FOR ALL TO public USING (true);''], None),
          (sample_session ''90624'')
            \<lparr>issued := [SelectVersion, SelectPolicies queryNone ''public'' ''users'']\<rparr>)
   \<and> fst (Version (sample_session ''130005'')) = (''130005'', None)
   \<and> \<not> HasPrefix ''130005'' ''9''
   \<and> getPolicyDefs (sample_session ''130005'') ''public.users''
       = (([''CREATE POLICY p_users ON users AS PERMISSIVE FOR ALL TO public USING (true);''],
           None),
          (sample_session ''130005'')
            \<lparr>issued := [SelectVersion, SelectPolicies queryPermissive ''public'' ''users'']\<rparr>)
   \<and> count_list (issued (snd (getPolicyDefs (sample_session ''90624'') ''public.users'')))
        SelectVersion = 1"
proof -
  have v: "fst (Version (sample_session ''90624'')) = (''90624'', None)"
          "fst (Version (sample_session ''130005'')) = (''130005'', None)"
    by (simp_all add: Version_def sample_session_def collect_def)
  have p: "HasPrefix ''90624'' ''9''" "\<not> HasPrefix ''130005'' ''9''"
    by (simp_all add: HasPrefix_def)
  have e: "issued (sample_session ''90624'') = []"
    by (simp add: sample_session_def)
  have g1: "getPolicyDefs (sample_session ''90624'') ''public.users''
       = (([''CREATE POLICY p_users ON users AS  FOR ALL TO public USING (true);''], None),
          (sample_session ''90624'')
            \<lparr>issued := [SelectVersion, SelectPolicies queryNone ''public'' ''users'']\<rparr>)"
    unfolding getPolicyDefs_unfold [OF SplitTableName_users] v
    by (simp add: p sample_session_def issue_def collect_def run_policy_query_def
        policy_def_explicit policyRolesPrefixRegex_remove_def policyRolesSuffixRegex_remove_def)
  have g2: "getPolicyDefs (sample_session ''130005'') ''public.users''
       = (([''CREATE POLICY p_users ON users AS PERMISSIVE FOR ALL TO public USING (true);''],
           None),
          (sample_session ''130005'')
            \<lparr>issued := [SelectVersion, SelectPolicies queryPermissive ''public'' ''users'']\<rparr>)"
    unfolding getPolicyDefs_unfold [OF SplitTableName_users] v
    by (simp add: p sample_session_def issue_def collect_def run_policy_query_def
        policy_def_explicit policyRolesPrefixRegex_remove_def policyRolesSuffixRegex_remove_def)
  have "count_list (issued (snd (getPolicyDefs (sample_session ''90624'') ''public.users'')))
        SelectVersion = 1"
    using getPolicyDefs_version_once [OF SplitTableName_users, of "sample_session ''90624''"] e
    by simp
  with SplitTableName_users v p g1 g2 show ?thesis
    by blast
qed

subsection \<open>The statement of a policy\<close>

text \<open>
  C6. For every policy row, the statement is \<open>CREATE POLICY name ON table AS permissive
  FOR cmd TO roles\<close>, then \<open>USING qual\<close> exactly when \<open>qual\<close> is not null, then
  \<open>WITH CHECK with_check\<close> exactly when \<open>with_check\<close> is not null, then \<open>;\<close>. The
  roles are written without one leading \<open>{\<close> and without one trailing \<open>}\<close>, each
  removed only when present and at most once: a value \<open>{inner}\<close> is written \<open>inner\<close>.
  The table is the table name after the schema has been split off. The list returned by
  \<open>getPolicyDefs\<close> is made of these statements, one per row of the policy query.
\<close>

theorem policy_statement:
  "policy_def table (policyName, permissive, roles, cmd, qual, with_check) =
     ''CREATE POLICY '' @ policyName @ '' ON '' @ table @ '' AS '' @ permissive
     @ '' FOR '' @ cmd @ '' TO ''
     @ (let r = (if HasPrefix roles ''{'' then drop 1 roles else roles)
        in if HasSuffix r ''}'' then take (length r - 1) r else r)
     @ (case qual of None \<Rightarrow> [] | Some q \<Rightarrow> '' USING '' @ q)
     @ (case with_check of None \<Rightarrow> [] | Some w \<Rightarrow> '' WITH CHECK '' @ w)
     @ '';''
   \<and> (\<forall>inner. roles = ''{'' @ inner @ ''}'' \<longrightarrow>
         policy_def table (policyName, permissive, roles, cmd, qual, with_check) =
           ''CREATE POLICY '' @ policyName @ '' ON '' @ table @ '' AS '' @ permissive
           @ '' FOR '' @ cmd @ '' TO '' @ inner
           @ (case qual of None \<Rightarrow> [] | Some q \<Rightarrow> '' USING '' @ q)
           @ (case with_check of None \<Rightarrow> [] | Some w \<Rightarrow> '' WITH CHECK '' @ w)
           @ '';'')
   \<and> (\<forall>defs. fst (getPolicyDefs d table0) = (defs, None) \<longrightarrow>
         (\<exists>q rows. run_policy_query q d (fst (SplitTableName table0))
                      (snd (SplitTableName table0)) = Inr (map Inr rows)
            \<and> defs = map (policy_def (snd (SplitTableName table0))) rows))"
proof (intro conjI allI impI)
  have pre: "policyRolesPrefixRegex_remove roles
               = (if HasPrefix roles ''{'' then drop 1 roles else roles)"
    by (cases roles) (auto simp: policyRolesPrefixRegex_remove_def HasPrefix_def)
  have suf: "\<And>r. policyRolesSuffixRegex_remove r
               = (if HasSuffix r ''}'' then take (length r - 1) r else r)"
  proof -
    fix r :: string
    show "policyRolesSuffixRegex_remove r
               = (if HasSuffix r ''}'' then take (length r - 1) r else r)"
      by (cases r rule: rev_cases)
         (auto simp: policyRolesSuffixRegex_remove_def HasSuffix_def butlast_conv_take)
  qed
  show 1: "policy_def table (policyName, permissive, roles, cmd, qual, with_check) =
     ''CREATE POLICY '' @ policyName @ '' ON '' @ table @ '' AS '' @ permissive
     @ '' FOR '' @ cmd @ '' TO ''
     @ (let r = (if HasPrefix roles ''{'' then drop 1 roles else roles)
        in if HasSuffix r ''}'' then take (length r - 1) r else r)
     @ (case qual of None \<Rightarrow> [] | Some q \<Rightarrow> '' USING '' @ q)
     @ (case with_check of None \<Rightarrow> [] | Some w \<Rightarrow> '' WITH CHECK '' @ w)
     @ '';''"
    unfolding policy_def_explicit pre suf Let_def ..
next
  fix inner
  assume "roles = ''{'' @ inner @ ''}''"
  then have "policyRolesSuffixRegex_remove (policyRolesPrefixRegex_remove roles) = inner"
    by (simp add: policyRolesPrefixRegex_remove_def policyRolesSuffixRegex_remove_def)
  then show "policy_def table (policyName, permissive, roles, cmd, qual, with_check) =
           ''CREATE POLICY '' @ policyName @ '' ON '' @ table @ '' AS '' @ permissive
           @ '' FOR '' @ cmd @ '' TO '' @ inner
           @ (case qual of None \<Rightarrow> [] | Some q \<Rightarrow> '' USING '' @ q)
           @ (case with_check of None \<Rightarrow> [] | Some w \<Rightarrow> '' WITH CHECK '' @ w)
           @ '';''"
    by (simp add: policy_def_explicit)
next
  fix defs
  assume r: "fst (getPolicyDefs d table0) = (defs, None)"
  have s: "SplitTableName table0 = (fst (SplitTableName table0), snd (SplitTableName table0))"
    by simp
  obtain version eo where v: "fst (Version d) = (version, eo)"
    by (cases "fst (Version d)") auto
  have "eo = None"
    using r unfolding getPolicyDefs_unfold [OF s] v by (cases eo) auto
  with v have "fst (Version d) = (version, None)" by simp
  from getPolicyDefs_ok [OF s this r]
  show "\<exists>q rows. run_policy_query q d (fst (SplitTableName table0))
                      (snd (SplitTableName table0)) = Inr (map Inr rows)
            \<and> defs = map (policy_def (snd (SplitTableName table0))) rows"
    by blast
qed

theorem policy_statement_witness:
  "policy_def ''users''
       (''p_users'', ''PERMISSIVE'', ''{admin,app}'', ''SELECT'', Some ''(owner = current_user)'',
        Some ''(true)'')
     = ''CREATE POLICY p_users ON users AS PERMISSIVE FOR SELECT TO admin,app USING (owner = current_user) WITH CHECK (true);''
   \<and> policy_def ''users'' (''p_users'', ''PERMISSIVE'', ''public'', ''ALL'', None, None)
     = ''CREATE POLICY p_users ON users AS PERMISSIVE FOR ALL TO public;''
   \<and> policy_def ''users'' (''p_users'', ''PERMISSIVE'', ''{{a}}'', ''ALL'', None, None)
     = ''CREATE POLICY p_users ON users AS PERMISSIVE FOR ALL TO {a};''
   \<and> fst (getPolicyDefs (sample_session ''130005'') ''public.users'')
     = ([''CREATE POLICY p_users ON users AS PERMISSIVE FOR ALL TO public USING (true);''],
        None)"
proof -
  have g: "fst (getPolicyDefs (sample_session ''130005'') ''public.users'')
     = ([''CREATE POLICY p_users ON users AS PERMISSIVE FOR ALL TO public USING (true);''],
        None)"
    unfolding getPolicyDefs_unfold [OF SplitTableName_users]
    by (simp add: Version_def HasPrefix_def sample_session_def issue_def collect_def
        run_policy_query_def policy_def_explicit policyRolesPrefixRegex_remove_def
        policyRolesSuffixRegex_remove_def)
  have a: "''{admin,app}'' = ''{'' @ ''admin,app'' @ ''}''" "''{{a}}'' = ''{'' @ ''{a}'' @ ''}''"
    by simp_all
  note t1 = policy_statement [of "''users''" "''p_users''"
          "''PERMISSIVE''" "''{admin,app}''" "''SELECT''" "Some ''(owner = current_user)''"
          "Some ''(true)''" "sample_session ''130005''" "''public.users''"]
  note t2 = policy_statement [of "''users''" "''p_users''"
          "''PERMISSIVE''" "''public''" "''ALL''" None None "sample_session ''130005''"
          "''public.users''"]
  note t3 = policy_statement [of "''users''" "''p_users''"
          "''PERMISSIVE''" "''{{a}}''" "''ALL''" None None "sample_session ''130005''"
          "''public.users''"]
  have 1: "policy_def ''users''
       (''p_users'', ''PERMISSIVE'', ''{admin,app}'', ''SELECT'', Some ''(owner = current_user)'',
        Some ''(true)'')
     = ''CREATE POLICY p_users ON users AS PERMISSIVE FOR SELECT TO admin,app USING (owner = current_user) WITH CHECK (true);''"
    using mp [OF spec [OF conjunct1 [OF conjunct2 [OF t1]], of "''admin,app''"] a(1)]
    by simp
  have 2: "policy_def ''users'' (''p_users'', ''PERMISSIVE'', ''public'', ''ALL'', None, None)
     = ''CREATE POLICY p_users ON users AS PERMISSIVE FOR ALL TO public;''"
    using conjunct1 [OF t2]
    by (simp add: HasPrefix_def HasSuffix_def)
  have 3: "policy_def ''users'' (''p_users'', ''PERMISSIVE'', ''{{a}}'', ''ALL'', None, None)
     = ''CREATE POLICY p_users ON users AS PERMISSIVE FOR ALL TO {a};''"
    using mp [OF spec [OF conjunct1 [OF conjunct2 [OF t3]], of "''{a}''"] a(2)]
    by simp
  show ?thesis by (intro conjI 1 2 3 g)
qed

subsection \<open>Triggers\<close>

text \<open>
  C9. \<open>Triggers\<close> returns the empty list and no error for every session, and issues no
  query: the session is returned as it was.
\<close>

theorem Triggers_nothing:
  "fst (Triggers d) = ([], None) \<and> snd (Triggers d) = d
   \<and> issued (snd (Triggers d)) = issued d"
  by (simp add: Triggers_def)

subsection \<open>The server version\<close>

text \<open>
  C10. When the settings query returns no row, \<open>Version\<close> returns the empty string and
  no error, and \<open>getPolicyDefs\<close> then issues the policy query that reads the real
  permissiveness column and renders its rows. When the query returns rows that all scan,
  \<open>Version\<close> returns the setting of the last row.
\<close>

theorem Version_last_setting:
  "(pg_settings d = Inr [] \<longrightarrow>
      fst (Version d) = ([], None)
      \<and> (\<forall>schema table. SplitTableName table0 = (schema, table) \<longrightarrow>
           issued (snd (getPolicyDefs d table0))
             = issued d @ [SelectVersion, SelectPolicies queryPermissive schema table]
           \<and> fst (getPolicyDefs d table0)
             = collect (pg_policies d schema table)
                 (\<lambda>defs row. Inr (defs @ [policy_def table row])) [] []))
   \<and> (\<forall>rows. pg_settings d = Inr (map Inr rows) \<and> rows \<noteq> [] \<longrightarrow>
         fst (Version d) = (fst (snd (last rows)), None))"
proof (intro conjI allI impI)
  assume e: "pg_settings d = Inr []"
  then show v: "fst (Version d) = ([], None)"
    by (simp add: Version_def collect_def)
  fix schema table
  assume s: "SplitTableName table0 = (schema, table)"
  have n: "\<not> HasPrefix [] ''9''" by (simp add: HasPrefix_def)
  show "issued (snd (getPolicyDefs d table0))
             = issued d @ [SelectVersion, SelectPolicies queryPermissive schema table]"
    unfolding getPolicyDefs_unfold [OF s] v using n by (simp add: issue_def)
  show "fst (getPolicyDefs d table0)
             = collect (pg_policies d schema table)
                 (\<lambda>defs row. Inr (defs @ [policy_def table row])) [] []"
    unfolding getPolicyDefs_unfold [OF s] v using n by (simp add: run_policy_query_def)
next
  fix rows :: "(string \<times> string \<times> string \<times> string) list"
  assume "pg_settings d = Inr (map Inr rows) \<and> rows \<noteq> []"
  then show "fst (Version d) = (fst (snd (last rows)), None)"
    by (simp add: Version_def collect_def for_rows_last_setting)
qed

theorem Version_last_setting_witness:
  "pg_settings ((sample_session ''90624'')\<lparr>pg_settings := Inr []\<rparr>) = Inr []
   \<and> fst (Version ((sample_session ''90624'')\<lparr>pg_settings := Inr []\<rparr>)) = ([], None)
   \<and> SplitTableName ''public.users'' = (''public'', ''users'')
   \<and> issued (snd (getPolicyDefs ((sample_session ''90624'')\<lparr>pg_settings := Inr []\<rparr>)
                    ''public.users''))
       = [SelectVersion, SelectPolicies queryPermissive ''public'' ''users'']
   \<and> fst (getPolicyDefs ((sample_session ''90624'')\<lparr>pg_settings := Inr []\<rparr>)
                    ''public.users'')
       = ([''CREATE POLICY p_users ON users AS PERMISSIVE FOR ALL TO public USING (true);''],
          None)
   \<and> fst (Version ((sample_session ''90624'')
          \<lparr>pg_settings := Inr (map Inr [(''server_version_num'', ''90624'', ''90624'', ''90624''),
                                       (''server_version_num'', ''130005'', ''0'', ''0'')])\<rparr>))
       = (''130005'', None)"
proof -
  let ?d0 = "(sample_session ''90624'')\<lparr>pg_settings := Inr []\<rparr>"
  let ?rows = "[(''server_version_num'', ''90624'', ''90624'', ''90624''),
               (''server_version_num'', ''130005'', ''0'', ''0'')]"
  let ?d2 = "(sample_session ''90624'')\<lparr>pg_settings := Inr (map Inr ?rows)\<rparr>"
  have e: "pg_settings ?d0 = Inr []" by simp
  have i: "issued ?d0 = []" by (simp add: sample_session_def)
  have pp: "pg_policies ?d0 ''public'' ''users''
      = Inr [Inr (''p_users'', ''PERMISSIVE'', ''{public}'', ''ALL'', Some ''(true)'', None)]"
    by (simp add: sample_session_def)
  have e2: "pg_settings ?d2 = Inr (map Inr ?rows) \<and> ?rows \<noteq> []" by simp
  note t = Version_last_setting [of ?d0 "''public.users''"]
  have 1: "fst (Version ?d0) = ([], None)"
    using t e by blast
  have 2: "issued (snd (getPolicyDefs ?d0 ''public.users''))
       = [SelectVersion, SelectPolicies queryPermissive ''public'' ''users'']"
    using t e SplitTableName_users i by simp
  have "fst (getPolicyDefs ?d0 ''public.users'')
       = collect (pg_policies ?d0 ''public'' ''users'')
           (\<lambda>defs row. Inr (defs @ [policy_def ''users'' row])) [] []"
    using t e SplitTableName_users by blast
  then have 3: "fst (getPolicyDefs ?d0 ''public.users'')
       = ([''CREATE POLICY p_users ON users AS PERMISSIVE FOR ALL TO public USING (true);''],
          None)"
    unfolding pp
    by (simp add: collect_def policy_def_explicit policyRolesPrefixRegex_remove_def
        policyRolesSuffixRegex_remove_def)
  have 4: "fst (Version ?d2) = (''130005'', None)"
    using Version_last_setting [of ?d2 "''public.users''"] e2 by fastforce
  from e 1 2 3 4 SplitTableName_users show ?thesis by blast
qed

subsection \<open>Views\<close>

lemma spaces_collapse_set: "set (spaces_collapse s) \<subseteq> set s"
  by (induction s rule: spaces_collapse.induct) auto

lemma spaces_collapse_Nil_iff: "spaces_collapse s = [] \<longleftrightarrow> s = []"
  by (induction s rule: spaces_collapse.induct) auto

lemma spaces_collapse_last: "s \<noteq> [] \<Longrightarrow> last (spaces_collapse s) = last s"
  by (induction s rule: spaces_collapse.induct) (auto simp: spaces_collapse_Nil_iff)

lemma spaces_collapse_hd: "s \<noteq> [] \<Longrightarrow> hd (spaces_collapse s) = hd s"
  by (induction s rule: spaces_collapse.induct) auto

lemma spaces_collapse_filter:
  "filter (\<lambda>c. c \<noteq> CHR '' '') (spaces_collapse s) = filter (\<lambda>c. c \<noteq> CHR '' '') s"
  by (induction s rule: spaces_collapse.induct) auto

lemma two_spaces_Cons:
  "sublist ''  '' (a # t) \<longleftrightarrow> (a = CHR '' '' \<and> t \<noteq> [] \<and> hd t = CHR '' '') \<or> sublist ''  '' t"
  by (cases t) (auto simp: sublist_Cons_right)

lemma spaces_collapse_no_run: "\<not> sublist ''  '' (spaces_collapse s)"
proof (induction s rule: spaces_collapse.induct)
  case 1
  then show ?case by simp
next
  case (2 c)
  then show ?case by (simp add: two_spaces_Cons)
next
  case (3 a b cs)
  have h: "hd (spaces_collapse (b # cs)) = b"
    using spaces_collapse_hd [of "b # cs"] by simp
  show ?case
  proof (cases "a = CHR '' '' \<and> b = CHR '' ''")
    case True
    with 3 show ?thesis by simp
  next
    case False
    with 3 have ih: "\<not> sublist ''  '' (spaces_collapse (b # cs))" by blast
    from False h have "\<not> (a = CHR '' '' \<and> spaces_collapse (b # cs) \<noteq> []
                         \<and> hd (spaces_collapse (b # cs)) = CHR '' '')"
      by auto
    with ih have "\<not> sublist ''  '' (a # spaces_collapse (b # cs))"
      unfolding two_spaces_Cons [of a "spaces_collapse (b # cs)"] by blast
    with False show ?thesis by auto
  qed
qed

lemma suffixSemicolon_remove_alt:
  "suffixSemicolon_remove s = (if HasSuffix s '';'' then take (length s - 1) s else s)"
  by (cases s rule: rev_cases)
     (auto simp: suffixSemicolon_remove_def HasSuffix_def butlast_conv_take)

lemma suffixSemicolon_remove_set: "set (suffixSemicolon_remove s) \<subseteq> set s"
  by (auto simp: suffixSemicolon_remove_def dest: in_set_butlastD)

lemma HasSuffix_snoc: "HasSuffix (s @ [c]) [c]"
  by (simp add: HasSuffix_def)

lemma HasSuffix_two:
  "HasSuffix (s @ [c]) [c, c] \<longleftrightarrow> s \<noteq> [] \<and> last s = c"
  by (cases s rule: rev_cases) (auto simp: HasSuffix_def)

lemma suffixSemicolon_remove_last:
  "\<not> HasSuffix s '';;'' \<Longrightarrow> suffixSemicolon_remove s \<noteq> []
     \<Longrightarrow> last (suffixSemicolon_remove s) \<noteq> CHR '';''"
proof (cases s rule: rev_cases)
  case Nil
  assume "suffixSemicolon_remove s \<noteq> []"
  with Nil show ?thesis by (simp add: suffixSemicolon_remove_def)
next
  case (snoc t c)
  assume n: "\<not> HasSuffix s '';;''" and ne: "suffixSemicolon_remove s \<noteq> []"
  show ?thesis
  proof (cases "c = CHR '';''")
    case True
    with snoc n have "t = [] \<or> last t \<noteq> CHR '';''"
      using HasSuffix_two [of t "CHR '';''"] by auto
    with snoc True ne show ?thesis by (auto simp: suffixSemicolon_remove_def)
  next
    case False
    with snoc show ?thesis by (simp add: suffixSemicolon_remove_def)
  qed
qed

lemma view_ddl_explicit:
  "view_ddl (schema, name, definition0) =
     ''CREATE VIEW '' @ schema @ ''.'' @ name @ '' AS ''
     @ spaces_collapse (suffixSemicolon_remove (remove_newlines (TrimSpace definition0)))
     @ '';''"
  by (simp add: view_ddl_def Let_def)

lemma view_body_no_newline:
  "CHR 0x0A \<notin> set (spaces_collapse (suffixSemicolon_remove (remove_newlines s)))"
proof
  assume "CHR 0x0A \<in> set (spaces_collapse (suffixSemicolon_remove (remove_newlines s)))"
  then have "CHR 0x0A \<in> set (remove_newlines s)"
    using spaces_collapse_set suffixSemicolon_remove_set by blast
  then show False by (simp add: remove_newlines_def)
qed

text \<open>
  C7, as stated: for every view row whose definition contains newlines and ends with a
  semicolon, the emitted statement contains no newline and ends with exactly one
  semicolon. Only one trailing semicolon is stripped from the definition, so a
  definition ending with two gives a statement ending with two; and the schema and the
  name are written as they are, so a newline in one of them stays in the statement.
\<close>

theorem view_ddl_counterexample:
  "CHR 0x0A \<in> set (''SELECT 1'' @ nl @ '' FROM t;;'')
   \<and> HasSuffix (''SELECT 1'' @ nl @ '' FROM t;;'') '';''
   \<and> view_ddl (''public'', ''v'', ''SELECT 1'' @ nl @ '' FROM t;;'')
       = ''CREATE VIEW public.v AS SELECT 1 FROM t;;''
   \<and> HasSuffix (view_ddl (''public'', ''v'', ''SELECT 1'' @ nl @ '' FROM t;;'')) '';;''
   \<and> CHR 0x0A \<in> set (''SELECT 1'' @ nl @ '' FROM t;'')
   \<and> HasSuffix (''SELECT 1'' @ nl @ '' FROM t;'') '';''
   \<and> CHR 0x0A \<in> set (view_ddl (''my'' @ nl @ ''schema'', ''v'',
                                ''SELECT 1'' @ nl @ '' FROM t;''))"
  by code_simp

text \<open>
  C7, amended: for every view row, \<open>Views\<close> emits \<open>CREATE VIEW schema.name AS body;\<close>
  where the body is the definition with the surrounding white space trimmed, every
  newline removed, one trailing semicolon stripped and every run of spaces collapsed to
  one space, in this order. The body contains no newline and no two adjacent spaces, and
  has the characters other than spaces of the stripped text. The statement contains no
  newline when the schema and the name contain none; it ends with a semicolon, and with
  exactly one when the definition, trimmed and without its newlines, does not end with
  two.
\<close>

theorem view_ddl_normalised:
  "(let flat = remove_newlines (TrimSpace definition0);
        body = spaces_collapse
                 (if HasSuffix flat '';'' then take (length flat - 1) flat else flat)
    in view_ddl (schema, name, definition0)
         = ''CREATE VIEW '' @ schema @ ''.'' @ name @ '' AS '' @ body @ '';''
       \<and> CHR 0x0A \<notin> set body
       \<and> \<not> sublist ''  '' body
       \<and> filter (\<lambda>c. c \<noteq> CHR '' '') body
           = filter (\<lambda>c. c \<noteq> CHR '' '')
               (if HasSuffix flat '';'' then take (length flat - 1) flat else flat)
       \<and> (CHR 0x0A \<notin> set schema \<and> CHR 0x0A \<notin> set name
            \<longrightarrow> CHR 0x0A \<notin> set (view_ddl (schema, name, definition0)))
       \<and> HasSuffix (view_ddl (schema, name, definition0)) '';''
       \<and> (\<not> HasSuffix flat '';;''
            \<longrightarrow> \<not> HasSuffix (view_ddl (schema, name, definition0)) '';;''))
   \<and> (\<forall>rows. pg_views d = Inr (map Inr rows)
         \<longrightarrow> Views d = ((map view_ddl rows, None), issue SelectViews d))"
proof -
  define flat where "flat = remove_newlines (TrimSpace definition0)"
  define stripped where "stripped = suffixSemicolon_remove flat"
  define body where "body = spaces_collapse stripped"
  have s: "stripped = (if HasSuffix flat '';'' then take (length flat - 1) flat else flat)"
    unfolding stripped_def by (rule suffixSemicolon_remove_alt)
  have v: "view_ddl (schema, name, definition0)
         = ''CREATE VIEW '' @ schema @ ''.'' @ name @ '' AS '' @ body @ '';''"
    unfolding body_def stripped_def flat_def by (rule view_ddl_explicit)
  have n: "CHR 0x0A \<notin> set body"
    unfolding body_def stripped_def flat_def by (rule view_body_no_newline)
  have r: "\<not> sublist ''  '' body"
    unfolding body_def by (rule spaces_collapse_no_run)
  have f: "filter (\<lambda>c. c \<noteq> CHR '' '') body = filter (\<lambda>c. c \<noteq> CHR '' '') stripped"
    unfolding body_def by (rule spaces_collapse_filter)
  have n': "CHR 0x0A \<notin> set schema \<and> CHR 0x0A \<notin> set name
            \<longrightarrow> CHR 0x0A \<notin> set (view_ddl (schema, name, definition0))"
    unfolding v using n by auto
  have v2: "view_ddl (schema, name, definition0)
            = (''CREATE VIEW '' @ schema @ ''.'' @ name @ '' AS '' @ body) @ '';''"
    unfolding v by simp
  have e: "HasSuffix (view_ddl (schema, name, definition0)) '';''"
    unfolding v2 by (rule HasSuffix_snoc)
  have e2: "\<not> HasSuffix flat '';;''
            \<longrightarrow> \<not> HasSuffix (view_ddl (schema, name, definition0)) '';;''"
  proof
    assume a: "\<not> HasSuffix flat '';;''"
    have "last (''CREATE VIEW '' @ schema @ ''.'' @ name @ '' AS '' @ body)
                     \<noteq> CHR '';''"
    proof (cases "body = []")
      case True
      then show ?thesis by simp
    next
      case False
      then have ne: "stripped \<noteq> []"
        by (simp add: body_def spaces_collapse_Nil_iff)
      then have "last body = last stripped"
        by (simp add: body_def spaces_collapse_last)
      moreover have "last stripped \<noteq> CHR '';''"
        using a ne unfolding stripped_def by (rule suffixSemicolon_remove_last)
      ultimately show ?thesis using False by simp
    qed
    then show "\<not> HasSuffix (view_ddl (schema, name, definition0)) '';;''"
      unfolding v2
      using HasSuffix_two [of "''CREATE VIEW '' @ schema @ ''.'' @ name @ '' AS '' @ body"
          "CHR '';''"]
      by blast
  qed
  have w: "\<forall>rows. pg_views d = Inr (map Inr rows)
         \<longrightarrow> Views d = ((map view_ddl rows, None), issue SelectViews d)"
    by (simp add: Views_def collect_append)
  show ?thesis
    unfolding Let_def flat_def [symmetric] s [symmetric] body_def [symmetric]
    by (intro conjI v n r f n' e e2 w)
qed

theorem view_ddl_normalised_witness:
  "pg_views (sample_session ''130005'')
     = Inr (map Inr [(''public'', ''active_users'',
                      '' SELECT users.id,'' @ nl @ ''    users.email'' @ nl
                      @ ''   FROM users'' @ nl @ ''  WHERE users.active;'')])
   \<and> Views (sample_session ''130005'')
     = (([''CREATE VIEW public.active_users AS SELECT users.id, users.email FROM users WHERE users.active;''],
         None),
        issue SelectViews (sample_session ''130005''))
   \<and> CHR 0x0A \<notin> set ''public'' \<and> CHR 0x0A \<notin> set ''active_users''
   \<and> \<not> HasSuffix (remove_newlines (TrimSpace
          ('' SELECT users.id,'' @ nl @ ''    users.email'' @ nl
           @ ''   FROM users'' @ nl @ ''  WHERE users.active;''))) '';;''
   \<and> \<not> HasSuffix (view_ddl (''public'', ''active_users'',
                      '' SELECT users.id,'' @ nl @ ''    users.email'' @ nl
                      @ ''   FROM users'' @ nl @ ''  WHERE users.active;'')) '';;''
   \<and> CHR 0x0A \<notin> set (view_ddl (''public'', ''active_users'',
                      '' SELECT users.id,'' @ nl @ ''    users.email'' @ nl
                      @ ''   FROM users'' @ nl @ ''  WHERE users.active;''))"
proof -
  let ?def = "'' SELECT users.id,'' @ nl @ ''    users.email'' @ nl
                      @ ''   FROM users'' @ nl @ ''  WHERE users.active;''"
  have p: "pg_views (sample_session ''130005'')
     = Inr (map Inr [(''public'', ''active_users'', ?def)])"
    by (simp add: sample_session_def)
  have t: "remove_newlines (TrimSpace ?def)
      = ''SELECT users.id,    users.email   FROM users  WHERE users.active;''"
    by code_simp
  have h: "\<not> HasSuffix (remove_newlines (TrimSpace ?def)) '';;''"
    unfolding t by (simp add: HasSuffix_def)
  have c: "CHR 0x0A \<notin> set ''public''" "CHR 0x0A \<notin> set ''active_users''"
    by simp_all
  note th = view_ddl_normalised [of ?def "''public''" "''active_users''"
      "sample_session ''130005''"]
  have b: "view_ddl (''public'', ''active_users'', ?def)
     = ''CREATE VIEW public.active_users AS SELECT users.id, users.email FROM users WHERE users.active;''"
    using conjunct1 [OF th] unfolding Let_def t
    by (simp add: HasSuffix_def)
  have v: "Views (sample_session ''130005'')
     = (([view_ddl (''public'', ''active_users'', ?def)], None),
        issue SelectViews (sample_session ''130005''))"
    using mp [OF spec [OF conjunct2 [OF th]] p] by simp
  have n: "\<not> HasSuffix (view_ddl (''public'', ''active_users'', ?def)) '';;''"
    using conjunct1 [OF th] h unfolding Let_def by blast
  have m: "CHR 0x0A \<notin> set (view_ddl (''public'', ''active_users'', ?def))"
    using conjunct1 [OF th] c unfolding Let_def by blast
  show ?thesis
    using p v c h n m unfolding b by (intro conjI)
qed

subsection \<open>All or nothing\<close>

lemma for_rows_first_failure:
  assumes "\<forall>r \<in> set good. \<exists>c. column_of_row r = Inr c"
    and "column_of_row bad = Inl e"
  shows "for_rows (map Inr good @ Inr bad # rest)
           (\<lambda>cols row. case column_of_row row of Inl e \<Rightarrow> Inl e
                         | Inr col \<Rightarrow> Inr (cols @ [col])) acc = Inl e"
  using assms by (induction good arbitrary: acc) auto

lemma column_of_row_Atoi:
  "Atoi s = Inl e \<Longrightarrow>
   column_of_row (colName, colDefault, isNullable, Some s, dataType0, idGen, checkName,
     checkDefinition) = Inl e"
  by (simp add: column_of_row_def)

lemma getColumns_conversion_failure:
  assumes "SplitTableName table = (schema, tbl)"
    and "pg_columns d schema tbl
          = Inr (map Inr good
                 @ Inr (colName, colDefault, isNullable, Some s, dataType0, idGen, checkName,
                        checkDefinition) # rest)"
    and "\<forall>r \<in> set good. \<exists>c. column_of_row r = Inr c"
    and "Atoi s = Inl e"
  shows "getColumns d table = (([], Some e), issue (SelectColumns schema tbl) d)"
  using assms
  by (simp add: getColumns_def collect_def for_rows_first_failure column_of_row_Atoi)

lemma DumpTableDDL_error_empty:
  "DumpTableDDL rc ru d table = ((out, Some e), d') \<Longrightarrow> out = []"
  by (auto simp: DumpTableDDL_def split: prod.splits option.splits)

text \<open>
  C8. \<open>DumpTableDDL\<close> calls its seven accessors in order (columns, primary-key columns,
  index definitions, foreign-key definitions, policy definitions, check constraints,
  unique constraints). If one of them returns an error, \<open>DumpTableDDL\<close> returns the
  empty string with that error and calls no further accessor; whenever it returns an
  error the string is empty. If none fails it returns the assembled DDL and no error. A
  character length that \<open>Atoi\<close> cannot convert makes \<open>getColumns\<close>, and so
  \<open>DumpTableDDL\<close>, fail with the conversion error.
\<close>

theorem DumpTableDDL_all_or_nothing:
  "(\<forall>out e d'. DumpTableDDL rc ru d table = ((out, Some e), d') \<longrightarrow> out = [])
   \<and> (\<forall>cols e d1. getColumns d table = ((cols, Some e), d1)
        \<longrightarrow> DumpTableDDL rc ru d table = (([], Some e), d1))
   \<and> (\<forall>cols d1 pkeyCols e d2.
         getColumns d table = ((cols, None), d1)
         \<and> getPrimaryKeyColumns d1 table = ((pkeyCols, Some e), d2)
        \<longrightarrow> DumpTableDDL rc ru d table = (([], Some e), d2))
   \<and> (\<forall>cols d1 pkeyCols d2 indexDefs e d3.
         getColumns d table = ((cols, None), d1)
         \<and> getPrimaryKeyColumns d1 table = ((pkeyCols, None), d2)
         \<and> getIndexDefs d2 table = ((indexDefs, Some e), d3)
        \<longrightarrow> DumpTableDDL rc ru d table = (([], Some e), d3))
   \<and> (\<forall>cols d1 pkeyCols d2 indexDefs d3 foreignDefs e d4.
         getColumns d table = ((cols, None), d1)
         \<and> getPrimaryKeyColumns d1 table = ((pkeyCols, None), d2)
         \<and> getIndexDefs d2 table = ((indexDefs, None), d3)
         \<and> getForeignDefs d3 table = ((foreignDefs, Some e), d4)
        \<longrightarrow> DumpTableDDL rc ru d table = (([], Some e), d4))
   \<and> (\<forall>cols d1 pkeyCols d2 indexDefs d3 foreignDefs d4 policyDefs e d5.
         getColumns d table = ((cols, None), d1)
         \<and> getPrimaryKeyColumns d1 table = ((pkeyCols, None), d2)
         \<and> getIndexDefs d2 table = ((indexDefs, None), d3)
         \<and> getForeignDefs d3 table = ((foreignDefs, None), d4)
         \<and> getPolicyDefs d4 table = ((policyDefs, Some e), d5)
        \<longrightarrow> DumpTableDDL rc ru d table = (([], Some e), d5))
   \<and> (\<forall>cols d1 pkeyCols d2 indexDefs d3 foreignDefs d4 policyDefs d5 checkConstraints e d6.
         getColumns d table = ((cols, None), d1)
         \<and> getPrimaryKeyColumns d1 table = ((pkeyCols, None), d2)
         \<and> getIndexDefs d2 table = ((indexDefs, None), d3)
         \<and> getForeignDefs d3 table = ((foreignDefs, None), d4)
         \<and> getPolicyDefs d4 table = ((policyDefs, None), d5)
         \<and> getTableCheckConstraints d5 table = ((checkConstraints, Some e), d6)
        \<longrightarrow> DumpTableDDL rc ru d table = (([], Some e), d6))
   \<and> (\<forall>cols d1 pkeyCols d2 indexDefs d3 foreignDefs d4 policyDefs d5 checkConstraints d6
          uniqueConstraints e d7.
         getColumns d table = ((cols, None), d1)
         \<and> getPrimaryKeyColumns d1 table = ((pkeyCols, None), d2)
         \<and> getIndexDefs d2 table = ((indexDefs, None), d3)
         \<and> getForeignDefs d3 table = ((foreignDefs, None), d4)
         \<and> getPolicyDefs d4 table = ((policyDefs, None), d5)
         \<and> getTableCheckConstraints d5 table = ((checkConstraints, None), d6)
         \<and> getUniqueConstraints d6 table = ((uniqueConstraints, Some e), d7)
        \<longrightarrow> DumpTableDDL rc ru d table = (([], Some e), d7))
   \<and> (\<forall>cols d1 pkeyCols d2 indexDefs d3 foreignDefs d4 policyDefs d5 checkConstraints d6
          uniqueConstraints d7.
         getColumns d table = ((cols, None), d1)
         \<and> getPrimaryKeyColumns d1 table = ((pkeyCols, None), d2)
         \<and> getIndexDefs d2 table = ((indexDefs, None), d3)
         \<and> getForeignDefs d3 table = ((foreignDefs, None), d4)
         \<and> getPolicyDefs d4 table = ((policyDefs, None), d5)
         \<and> getTableCheckConstraints d5 table = ((checkConstraints, None), d6)
         \<and> getUniqueConstraints d6 table = ((uniqueConstraints, None), d7)
        \<longrightarrow> DumpTableDDL rc ru d table
            = ((buildDumpTableDDL rc ru table cols pkeyCols indexDefs foreignDefs policyDefs
                  checkConstraints uniqueConstraints, None), d7))
   \<and> (\<forall>schema tbl good colName colDefault isNullable s dataType0 idGen checkName
          checkDefinition rest e.
         SplitTableName table = (schema, tbl)
         \<and> pg_columns d schema tbl
             = Inr (map Inr good
                    @ Inr (colName, colDefault, isNullable, Some s, dataType0, idGen,
                           checkName, checkDefinition) # rest)
         \<and> (\<forall>r \<in> set good. \<exists>c. column_of_row r = Inr c)
         \<and> Atoi s = Inl e
        \<longrightarrow> DumpTableDDL rc ru d table = (([], Some e), issue (SelectColumns schema tbl) d))"
proof (intro conjI allI impI)
  fix out e d'
  assume "DumpTableDDL rc ru d table = ((out, Some e), d')"
  then show "out = []" by (rule DumpTableDDL_error_empty)
next
  fix schema tbl good colName colDefault isNullable s dataType0 idGen checkName
    checkDefinition rest e
  assume a: "SplitTableName table = (schema, tbl)
         \<and> pg_columns d schema tbl
             = Inr (map Inr good
                    @ Inr (colName, colDefault, isNullable, Some s, dataType0, idGen,
                           checkName, checkDefinition) # rest)
         \<and> (\<forall>r \<in> set good. \<exists>c. column_of_row r = Inr c)
         \<and> Atoi s = Inl e"
  then have "getColumns d table = (([], Some e), issue (SelectColumns schema tbl) d)"
    using getColumns_conversion_failure by blast
  then show "DumpTableDDL rc ru d table = (([], Some e), issue (SelectColumns schema tbl) d)"
    by (simp add: DumpTableDDL_def)
qed (simp_all add: DumpTableDDL_def)

theorem DumpTableDDL_all_or_nothing_witness:
  "DumpTableDDL id id
     ((sample_session ''130005'')
        \<lparr>pg_columns := (\<lambda>schema table.
           Inr (map Inr [(''id'', Some ''nextval('users_id_seq'::regclass)'', ''NO'', None,
                          ''integer'', None, None, None)]
                @ Inr (''email'', None, ''NO'', Some ''abc'', ''character varying'', None,
                       None, None) # []))\<rparr>)
     ''public.users''
     = (([], Some (ConversionFailure ''abc'')),
        issue (SelectColumns ''public'' ''users'')
          ((sample_session ''130005'')
             \<lparr>pg_columns := (\<lambda>schema table.
                Inr (map Inr [(''id'', Some ''nextval('users_id_seq'::regclass)'', ''NO'',
                               None, ''integer'', None, None, None)]
                     @ Inr (''email'', None, ''NO'', Some ''abc'', ''character varying'',
                            None, None, None) # []))\<rparr>))
   \<and> fst (DumpTableDDL id id
          ((sample_session ''130005'')
             \<lparr>pg_indexes := (\<lambda>schema table. Inl (QueryFailure ''permission denied''))\<rparr>)
          ''public.users'')
     = ([], Some (QueryFailure ''permission denied''))
   \<and> fst (DumpTableDDL id id (sample_session ''130005'') ''public.users'')
     = (''CREATE TABLE public.users ('' @ nl
        @ ''    '' @ dquote @ ''id'' @ dquote @ '' serial NOT NULL,'' @ nl
        @ ''    '' @ dquote @ ''email'' @ dquote @ '' character varying(255) NOT NULL,'' @ nl
        @ ''    PRIMARY KEY ('' @ dquote @ ''id'' @ dquote @ '')'' @ nl
        @ '');'' @ nl
        @ ''CREATE POLICY p_users ON users AS PERMISSIVE FOR ALL TO public USING (true);;''
        @ nl
        @ ''ALTER TABLE public.users ADD CONSTRAINT users_email_key UNIQUE (email);'',
        None)"
proof -
  let ?idrow = "(''id'', Some ''nextval('users_id_seq'::regclass)'', ''NO'', None :: string option,
                 ''integer'', None :: string option, None :: string option,
                 None :: string option)"
  let ?bad = "(sample_session ''130005'')
        \<lparr>pg_columns := (\<lambda>schema table.
           Inr (map Inr [?idrow]
                @ Inr (''email'', None, ''NO'', Some ''abc'', ''character varying'', None,
                       None, None) # []))\<rparr>"
  let ?noidx = "(sample_session ''130005'')
             \<lparr>pg_indexes := (\<lambda>schema table. Inl (QueryFailure ''permission denied''))\<rparr>"
  let ?d = "sample_session ''130005''"
  have atoi: "Atoi ''abc'' = Inl (ConversionFailure ''abc'')"
    by (simp add: Atoi_def is_digit_def)
  have atoi255: "Atoi ''255'' = Inr 255"
    by (simp add: Atoi_def is_digit_def parse_digits_def digit_val_def)
  have idcol: "column_of_row ?idrow
     = Inr \<lparr>Name = ''id'', dataType = ''integer'', Length = 0, Nullable = False,
          Default = ''nextval('users_id_seq'::regclass)'', IsAutoIncrement = True,
          IdentityGeneration = [], Check = None\<rparr>"
    by (simp add: column_of_row_def Trim_def dquote_def HasPrefix_def)
  have emailcol: "column_of_row (''email'', None, ''NO'', Some ''255'', ''character varying'',
                     None, None, None)
     = Inr \<lparr>Name = ''email'', dataType = ''character varying'', Length = 255,
          Nullable = False, Default = [], IsAutoIncrement = False, IdentityGeneration = [],
          Check = None\<rparr>"
    by (simp add: column_of_row_def Trim_def dquote_def atoi255)
  have good: "\<forall>r \<in> set [?idrow]. \<exists>c. column_of_row r = Inr c"
    using idcol by simp
  have pc: "pg_columns ?bad ''public'' ''users''
      = Inr (map Inr [?idrow]
             @ Inr (''email'', None, ''NO'', Some ''abc'', ''character varying'', None,
                    None, None) # [])"
    by simp
  note t1 = DumpTableDDL_all_or_nothing [of id id ?bad "''public.users''"]
  note t2 = DumpTableDDL_all_or_nothing [of id id ?noidx "''public.users''"]
  note t3 = DumpTableDDL_all_or_nothing [of id id ?d "''public.users''"]
  have 1: "DumpTableDDL id id ?bad ''public.users''
     = (([], Some (ConversionFailure ''abc'')), issue (SelectColumns ''public'' ''users'') ?bad)"
    by (rule t1 [THEN conjunct2, THEN conjunct2, THEN conjunct2, THEN conjunct2,
          THEN conjunct2, THEN conjunct2, THEN conjunct2, THEN conjunct2, THEN conjunct2,
          rule_format,
          OF conjI [OF SplitTableName_users conjI [OF pc conjI [OF good atoi]]]])
  let ?cols = "[\<lparr>Name = ''id'', dataType = ''integer'', Length = 0, Nullable = False,
          Default = ''nextval('users_id_seq'::regclass)'', IsAutoIncrement = True,
          IdentityGeneration = [], Check = None\<rparr>,
        \<lparr>Name = ''email'', dataType = ''character varying'', Length = 255,
          Nullable = False, Default = [], IsAutoIncrement = False, IdentityGeneration = [],
          Check = None\<rparr>]"
  have gc: "\<And>x. pg_columns x = pg_columns ?d \<Longrightarrow>
      getColumns x ''public.users'' = ((?cols, None), issue (SelectColumns ''public'' ''users'') x)"
    by (simp add: getColumns_def SplitTableName_users collect_def sample_session_def
        idcol emailcol)
  have gp: "\<And>x. pg_primary_key x = pg_primary_key ?d \<Longrightarrow>
      getPrimaryKeyColumns x ''public.users''
        = (([''id''], None), issue (SelectPrimaryKey ''public'' ''users'') x)"
    by (simp add: getPrimaryKeyColumns_def SplitTableName_users collect_def sample_session_def)
  have gi: "\<And>x. pg_indexes x = pg_indexes ?d \<Longrightarrow>
      getIndexDefs x ''public.users''
        = (([], None), issue (SelectIndexes ''public'' ''users'') x)"
    by (simp add: getIndexDefs_def SplitTableName_users collect_def sample_session_def)
  have gi': "\<And>x. pg_indexes x = pg_indexes ?noidx \<Longrightarrow>
      getIndexDefs x ''public.users''
        = (([], Some (QueryFailure ''permission denied'')),
           issue (SelectIndexes ''public'' ''users'') x)"
    by (simp add: getIndexDefs_def SplitTableName_users collect_def)
  have gf: "\<And>x. pg_foreign_keys x = pg_foreign_keys ?d \<Longrightarrow>
      getForeignDefs x ''public.users''
        = (([], None), issue (SelectForeignKeys ''public'' ''users'') x)"
    by (simp add: getForeignDefs_def SplitTableName_users collect_def sample_session_def)
  have gpol: "\<And>x. pg_settings x = pg_settings ?d \<Longrightarrow> pg_policies x = pg_policies ?d \<Longrightarrow>
      getPolicyDefs x ''public.users''
        = (([''CREATE POLICY p_users ON users AS PERMISSIVE FOR ALL TO public USING (true);''],
            None),
           issue (SelectPolicies queryPermissive ''public'' ''users'') (issue SelectVersion x))"
    unfolding getPolicyDefs_unfold [OF SplitTableName_users]
    by (simp add: Version_def HasPrefix_def sample_session_def collect_def
        run_policy_query_def policy_def_explicit policyRolesPrefixRegex_remove_def
        policyRolesSuffixRegex_remove_def)
  have gck: "\<And>x. pg_check_constraints x = pg_check_constraints ?d \<Longrightarrow>
      getTableCheckConstraints x ''public.users''
        = (([], None), issue (SelectCheckConstraints ''public'' ''users'') x)"
    by (simp add: getTableCheckConstraints_def SplitTableName_users collect_def
        sample_session_def)
  have gu: "\<And>x. pg_unique_constraints x = pg_unique_constraints ?d \<Longrightarrow>
      getUniqueConstraints x ''public.users''
        = (([(''users_email_key'',
              ''ALTER TABLE public.users ADD CONSTRAINT users_email_key UNIQUE (email)'')],
            None),
           issue (SelectUniqueConstraints ''public'' ''users'') x)"
    by (simp add: getUniqueConstraints_def SplitTableName_users collect_def
        sample_session_def)
  have 2: "fst (DumpTableDDL id id ?noidx ''public.users'')
     = ([], Some (QueryFailure ''permission denied''))"
  proof -
    let ?d1 = "issue (SelectColumns ''public'' ''users'') ?noidx"
    let ?d2 = "issue (SelectPrimaryKey ''public'' ''users'') ?d1"
    let ?d3 = "issue (SelectIndexes ''public'' ''users'') ?d2"
    have a: "getColumns ?noidx ''public.users'' = ((?cols, None), ?d1)"
      by (rule gc) simp
    have b: "getPrimaryKeyColumns ?d1 ''public.users'' = (([''id''], None), ?d2)"
      by (rule gp) (simp add: issue_def)
    have c: "getIndexDefs ?d2 ''public.users''
        = (([], Some (QueryFailure ''permission denied'')), ?d3)"
      by (rule gi') (simp add: issue_def)
    have "DumpTableDDL id id ?noidx ''public.users''
        = (([], Some (QueryFailure ''permission denied'')), ?d3)"
      by (rule t2 [THEN conjunct2, THEN conjunct2, THEN conjunct2, THEN conjunct1,
            rule_format, OF conjI [OF a conjI [OF b c]]])
    then show ?thesis by simp
  qed
  have 3: "fst (DumpTableDDL id id ?d ''public.users'')
     = (buildDumpTableDDL id id ''public.users'' ?cols [''id''] [] []
          [''CREATE POLICY p_users ON users AS PERMISSIVE FOR ALL TO public USING (true);'']
          []
          [(''users_email_key'',
            ''ALTER TABLE public.users ADD CONSTRAINT users_email_key UNIQUE (email)'')],
        None)"
  proof -
    let ?d1 = "issue (SelectColumns ''public'' ''users'') ?d"
    let ?d2 = "issue (SelectPrimaryKey ''public'' ''users'') ?d1"
    let ?d3 = "issue (SelectIndexes ''public'' ''users'') ?d2"
    let ?d4 = "issue (SelectForeignKeys ''public'' ''users'') ?d3"
    let ?d5 = "issue (SelectPolicies queryPermissive ''public'' ''users'')
                 (issue SelectVersion ?d4)"
    let ?d6 = "issue (SelectCheckConstraints ''public'' ''users'') ?d5"
    let ?d7 = "issue (SelectUniqueConstraints ''public'' ''users'') ?d6"
    have a: "getColumns ?d ''public.users'' = ((?cols, None), ?d1)"
      by (rule gc) simp
    have b: "getPrimaryKeyColumns ?d1 ''public.users'' = (([''id''], None), ?d2)"
      by (rule gp) (simp add: issue_def)
    have c: "getIndexDefs ?d2 ''public.users'' = (([], None), ?d3)"
      by (rule gi) (simp add: issue_def)
    have e: "getForeignDefs ?d3 ''public.users'' = (([], None), ?d4)"
      by (rule gf) (simp add: issue_def)
    have f: "getPolicyDefs ?d4 ''public.users''
        = (([''CREATE POLICY p_users ON users AS PERMISSIVE FOR ALL TO public USING (true);''],
            None), ?d5)"
      by (rule gpol) (simp_all add: issue_def)
    have g: "getTableCheckConstraints ?d5 ''public.users'' = (([], None), ?d6)"
      by (rule gck) (simp add: issue_def)
    have h: "getUniqueConstraints ?d6 ''public.users''
        = (([(''users_email_key'',
              ''ALTER TABLE public.users ADD CONSTRAINT users_email_key UNIQUE (email)'')],
            None), ?d7)"
      by (rule gu) (simp add: issue_def)
    have "DumpTableDDL id id ?d ''public.users''
        = ((buildDumpTableDDL id id ''public.users'' ?cols [''id''] [] []
          [''CREATE POLICY p_users ON users AS PERMISSIVE FOR ALL TO public USING (true);'']
          []
          [(''users_email_key'',
            ''ALTER TABLE public.users ADD CONSTRAINT users_email_key UNIQUE (email)'')],
        None), ?d7)"
      by (rule t3 [THEN conjunct2, THEN conjunct2, THEN conjunct2, THEN conjunct2,
            THEN conjunct2, THEN conjunct2, THEN conjunct2, THEN conjunct2, THEN conjunct1,
            rule_format,
            OF conjI [OF a conjI [OF b conjI [OF c conjI [OF e conjI [OF f conjI [OF g h]]]]]]])
    then show ?thesis by simp
  qed
  have 4: "buildDumpTableDDL id id ''public.users'' ?cols [''id''] [] []
          [''CREATE POLICY p_users ON users AS PERMISSIVE FOR ALL TO public USING (true);'']
          []
          [(''users_email_key'',
            ''ALTER TABLE public.users ADD CONSTRAINT users_email_key UNIQUE (email)'')]
     = ''CREATE TABLE public.users ('' @ nl
        @ ''    '' @ dquote @ ''id'' @ dquote @ '' serial NOT NULL,'' @ nl
        @ ''    '' @ dquote @ ''email'' @ dquote @ '' character varying(255) NOT NULL,'' @ nl
        @ ''    PRIMARY KEY ('' @ dquote @ ''id'' @ dquote @ '')'' @ nl
        @ '');'' @ nl
        @ ''CREATE POLICY p_users ON users AS PERMISSIVE FOR ALL TO public USING (true);;''
        @ nl
        @ ''ALTER TABLE public.users ADD CONSTRAINT users_email_key UNIQUE (email);''"
    unfolding buildDumpTableDDL_sections
    by (simp add: column_text_def GetDataType_def itoa_def digits.simps indent_def)
  show ?thesis
    using 1 2 3 unfolding 4 by (intro conjI)
qed

end
